theory Spec2Isabelle
  imports Complex_Main "HOL-Library.Word" "HOL-Library.Monad_Syntax"
begin

section \<open>Binary floating point\<close>

text \<open>
  The sketches compute with \<^verbatim>\<open>float\<close> (IEEE binary32) and, wherever a literal such as
  \<^verbatim>\<open>1.0\<close> or \<^verbatim>\<open>255.0\<close> takes part, with \<^verbatim>\<open>double\<close> (IEEE binary64; the target board
  is the Arduino R4 Minima, an ARM Cortex-M4, where \<^verbatim>\<open>double\<close> has 64 bits).
  A floating-point value is modelled by the rational number it denotes, and every
  operation by the exact operation followed by rounding to nearest, ties to even, at
  precision \<open>p\<close> with least normal exponent \<open>emin\<close> (so subnormal numbers are
  covered). Infinities and NaN are not modelled: every magnitude the sketches can compute
  is below \<open>2 ^ 33\<close>, far from the overflow threshold.
\<close>

text \<open>\<open>log2n n\<close> is the position of the leading bit of \<open>n\<close>.\<close>

fun log2n :: "nat \<Rightarrow> nat" where
  "log2n n = (if n < 2 then 0 else Suc (log2n (n div 2)))"

declare log2n.simps [simp del]

text \<open>The binary exponent of a positive rational: \<open>2 powi ilog2 x \<le> x < 2 powi (ilog2 x + 1)\<close>.\<close>

definition ilog2 :: "rat \<Rightarrow> int" where
  "ilog2 x =
     (if 1 \<le> x then int (log2n (nat \<lfloor>x\<rfloor>))
      else (let n = nat \<lceil>1 / x\<rceil> in if n \<le> 1 then 0 else - int (Suc (log2n (n - 1)))))"

text \<open>Rounding to the nearest integer, ties to the even one.\<close>

definition round_half_even :: "rat \<Rightarrow> int" where
  "round_half_even q =
     (let f = \<lfloor>q\<rfloor>; d = q - of_int f
      in if d < 1 / 2 then f else if 1 / 2 < d then f + 1 else if even f then f else f + 1)"

definition fl :: "nat \<Rightarrow> int \<Rightarrow> rat \<Rightarrow> rat" where
  "fl p emin x =
     (if x = 0 then 0
      else (let e = max (ilog2 \<bar>x\<bar>) emin; u = 2 powi (e - (int p - 1))
            in of_int (round_half_even (x / u)) * u))"

definition fl32 :: "rat \<Rightarrow> rat" where
  "fl32 = fl 24 (- 126)"

definition fl64 :: "rat \<Rightarrow> rat" where
  "fl64 = fl 53 (- 1022)"

text \<open>A rational is a \<^verbatim>\<open>float\<close> value exactly when rounding leaves it alone.\<close>

definition is_float32 :: "rat \<Rightarrow> bool" where
  "is_float32 x \<longleftrightarrow> fl32 x = x"

text \<open>
  Conversion of a floating-point value to \<^verbatim>\<open>uint8_t\<close>: the fractional part is discarded
  (truncation toward zero); when the integral part does not fit in 0..255 the behaviour
  is undefined in C++, which the model reports as \<open>None\<close>.
\<close>

definition to_integer :: "rat \<Rightarrow> int" where
  "to_integer x = (if 0 \<le> x then \<lfloor>x\<rfloor> else \<lceil>x\<rceil>)"

definition cast_u8 :: "rat \<Rightarrow> 8 word option" where
  "cast_u8 x = (let t = to_integer x in if 0 \<le> t \<and> t \<le> 255 then Some (word_of_int t) else None)"

text \<open>\<^verbatim>\<open>uint8_t\<close> to \<^verbatim>\<open>float\<close> or \<^verbatim>\<open>double\<close>: exact, every integer below \<open>2 ^ 24\<close> is a value of both.\<close>

definition u8_to_fp :: "8 word \<Rightarrow> rat" where
  "u8_to_fp w = of_nat (unat w)"

text \<open>\<^verbatim>\<open>unsigned long\<close> (32 bits) to \<^verbatim>\<open>float\<close> (rounds above \<open>2 ^ 24\<close>) and to \<^verbatim>\<open>double\<close>.\<close>

definition u32_to_float :: "32 word \<Rightarrow> rat" where
  "u32_to_float w = fl32 (of_nat (unat w))"

definition u32_to_double :: "32 word \<Rightarrow> rat" where
  "u32_to_double w = fl64 (of_nat (unat w))"

section \<open>Data model\<close>

record RGBColor =
  r :: "8 word"
  g :: "8 word"
  b :: "8 word"

text \<open>
  The global variables of a sketch. \<open>lastTimeUpdate\<close> and \<open>lastLCDUpdate\<close> exist only in
  the live sketch (\<^verbatim>\<open>198_Automatic_Lighting_Pod\<close>), \<open>simHour\<close> only in the demo sketch
  (\<^verbatim>\<open>198_Circadian_Light_Controller_Demo\<close>). \<open>strip\<close> is the pixel buffer of the NeoPixel
  object, one entry per LED. \<^verbatim>\<open>unsigned long\<close> is a 32-bit word, \<^verbatim>\<open>int\<close> values are only
  compared and stored, never computed with, and are modelled as \<open>int\<close>.
\<close>

record sketch_state =
  fadeStartTime :: "32 word"
  lastTimeUpdate :: "32 word"
  lastLCDUpdate :: "32 word"
  lastBrightUpdate :: "32 word"
  simHour :: int
  currentColor :: RGBColor
  startColor :: RGBColor
  endColor :: RGBColor
  currentMode :: string
  targetBrightness :: "8 word"
  currentBrightnessPrecise :: rat
  globalBrightness :: "8 word"
  strip :: "RGBColor list"

definition LED_COUNT :: nat where
  "LED_COUNT = 60"

section \<open>Colour tables\<close>




definition live_COLOR_DAYTIME :: RGBColor where
  "live_COLOR_DAYTIME = \<lparr>r = 0, g = 10, b = 50\<rparr>"

definition live_COLOR_AFTERNOON :: RGBColor where
  "live_COLOR_AFTERNOON = \<lparr>r = 255, g = 255, b = 255\<rparr>"

definition live_COLOR_NIGHT :: RGBColor where
  "live_COLOR_NIGHT = \<lparr>r = 255, g = 140, b = 0\<rparr>"

definition demo_COLOR_DAYTIME :: RGBColor where
  "demo_COLOR_DAYTIME = \<lparr>r = 0, g = 10, b = 50\<rparr>"

definition demo_COLOR_AFTERNOON :: RGBColor where
  "demo_COLOR_AFTERNOON = \<lparr>r = 255, g = 255, b = 255\<rparr>"

definition demo_COLOR_NIGHT :: RGBColor where
  "demo_COLOR_NIGHT = \<lparr>r = 255, g = 140, b = 0\<rparr>"

section \<open>Live sketch: mode check\<close>

definition HOUR_DAY_START :: int where
  "HOUR_DAY_START = 7"

definition HOUR_AFTERNOON_START :: int where
  "HOUR_AFTERNOON_START = 17"

definition HOUR_NIGHT_START :: int where
  "HOUR_NIGHT_START = 21"

text \<open>\<open>setupFade\<close> of the live sketch; \<open>now\<close> is the value \<^verbatim>\<open>millis()\<close> returns inside it.\<close>

definition live_setupFade :: "32 word \<Rightarrow> RGBColor \<Rightarrow> string \<Rightarrow> sketch_state \<Rightarrow> sketch_state" where
  "live_setupFade now color mode s =
     s\<lparr>startColor := currentColor s, endColor := color, currentMode := mode,
       fadeStartTime := now\<rparr>"

text \<open>
  The if-chain of \<open>checkMode\<close>: the values of its locals \<open>mode\<close> and \<open>color\<close> when the chain
  is left. Their initial values (\<open>currentMode\<close>, \<open>currentColor\<close>) are overwritten on every
  branch.
\<close>

definition checkMode_select :: "int \<Rightarrow> string \<times> RGBColor" where
  "checkMode_select currentHour =
     (if HOUR_DAY_START \<le> currentHour \<and> currentHour < HOUR_AFTERNOON_START
        then (''DAYTIME'', live_COLOR_DAYTIME)
      else if HOUR_AFTERNOON_START \<le> currentHour \<and> currentHour < HOUR_NIGHT_START
        then (''AFTERNOON'', live_COLOR_AFTERNOON)
      else (''NIGHT'', live_COLOR_NIGHT))"

definition checkMode :: "32 word \<Rightarrow> int \<Rightarrow> sketch_state \<Rightarrow> sketch_state" where
  "checkMode now currentHour s =
     (let (mode, color) = checkMode_select currentHour
      in if mode \<noteq> currentMode s then live_setupFade now color mode s else s)"

section \<open>Demo sketch: mode cycle\<close>

definition HOLD_MODE :: "32 word" where
  "HOLD_MODE = 10000"

definition HOUR_DAY :: int where
  "HOUR_DAY = 10"

definition HOUR_AFTERNOON :: int where
  "HOUR_AFTERNOON = 18"

definition HOUR_NIGHT :: int where
  "HOUR_NIGHT = 22"

definition demo_setupFade :: "32 word \<Rightarrow> RGBColor \<Rightarrow> sketch_state \<Rightarrow> sketch_state" where
  "demo_setupFade now color s =
     s\<lparr>startColor := currentColor s, endColor := color, fadeStartTime := now\<rparr>"

definition setDemoMode :: "32 word \<Rightarrow> string \<Rightarrow> int \<Rightarrow> RGBColor \<Rightarrow> sketch_state \<Rightarrow> sketch_state" where
  "setDemoMode now mode hour color s =
     demo_setupFade now color (s\<lparr>currentMode := mode, simHour := hour\<rparr>)"

text \<open>
  The first part of the demo \<open>loop\<close> (lines 96-116): \<open>currentMillis\<close> is the value of
  \<^verbatim>\<open>millis()\<close> at the top of the loop, \<open>now\<close> the one read inside \<open>setupFade\<close>.
\<close>

definition demo_loop_mode :: "32 word \<Rightarrow> 32 word \<Rightarrow> sketch_state \<Rightarrow> sketch_state" where
  "demo_loop_mode currentMillis now s =
     (let cycleTime = currentMillis mod 30000
      in if cycleTime < HOLD_MODE then
           (if currentMode s \<noteq> ''DAYTIME''
            then setDemoMode now ''DAYTIME'' HOUR_DAY demo_COLOR_DAYTIME s else s)
         else if cycleTime < HOLD_MODE * 2 then
           (if currentMode s \<noteq> ''AFTERNOON''
            then setDemoMode now ''AFTERNOON'' HOUR_AFTERNOON demo_COLOR_AFTERNOON s else s)
         else
           (if currentMode s \<noteq> ''NIGHT''
            then setDemoMode now ''NIGHT'' HOUR_NIGHT demo_COLOR_NIGHT s else s))"

section \<open>Distance sensor and target brightness (demo sketch)\<close>

definition DIST_MIN :: int where
  "DIST_MIN = 2"

definition DIST_MAX :: int where
  "DIST_MAX = 35"

text \<open>
  \<open>getDistance\<close>: \<open>pulse\<close> is what \<^verbatim>\<open>pulseIn\<close> returns (0 on timeout), stored in a \<^verbatim>\<open>long\<close>.
  The product with the \<^verbatim>\<open>double\<close> literal 0.034 and the division by 2 are \<^verbatim>\<open>double\<close>
  operations; the result is truncated to \<^verbatim>\<open>long\<close> (it always fits).
\<close>

definition getDistance :: "32 word \<Rightarrow> int" where
  "getDistance pulse =
     (let duration = sint pulse
      in if duration = 0 then 999
         else to_integer (fl64 (fl64 (fl64 (of_int duration) * fl64 (34 / 1000)) / 2)))"

text \<open>Integer division of C++: the quotient is truncated toward zero.\<close>

definition tdiv :: "int \<Rightarrow> int \<Rightarrow> int" where
  "tdiv a c = sgn a * sgn c * (\<bar>a\<bar> div \<bar>c\<bar>)"

text \<open>A result of \<^verbatim>\<open>long\<close> arithmetic, wrapped to 32 bits in two's complement.\<close>

definition wrap_long :: "int \<Rightarrow> int" where
  "wrap_long x = sint (word_of_int x :: 32 word)"

text \<open>
  \<^verbatim>\<open>map\<close> and \<^verbatim>\<open>constrain\<close> of the Arduino core (not part of the sketches):
  \<^verbatim>\<open>(x - in_min) * (out_max - out_min) / (in_max - in_min) + out_min\<close> in \<^verbatim>\<open>long\<close>
  arithmetic, and \<^verbatim>\<open>((amt)<(low)?(low):((amt)>(high)?(high):(amt)))\<close>.
\<close>

definition arduino_map :: "int \<Rightarrow> int \<Rightarrow> int \<Rightarrow> int \<Rightarrow> int \<Rightarrow> int" where
  "arduino_map x in_min in_max out_min out_max =
     wrap_long (wrap_long (tdiv (wrap_long (wrap_long (x - in_min) * wrap_long (out_max - out_min)))
                                (wrap_long (in_max - in_min)))
                + out_min)"

definition constrain :: "int \<Rightarrow> int \<Rightarrow> int \<Rightarrow> int" where
  "constrain amt low high = (if amt < low then low else if high < amt then high else amt)"

text \<open>The sensor part of the demo \<open>loop\<close> (lines 119-124), given the distance read.\<close>

definition demo_loop_sensor :: "int \<Rightarrow> sketch_state \<Rightarrow> sketch_state" where
  "demo_loop_sensor distance s =
     (if distance < DIST_MAX then
        (let mappedBrightness = arduino_map distance DIST_MIN DIST_MAX 255 0
         in s\<lparr>targetBrightness := word_of_int (constrain mappedBrightness 0 255)\<rparr>)
      else s)"

section \<open>Brightness smoothing (demo sketch)\<close>

definition BRIGHTNESS_FADE_DURATION :: rat where
  "BRIGHTNESS_FADE_DURATION = 2000"

text \<open>
  \<^verbatim>\<open>float step = (255.0 / BRIGHTNESS_FADE_DURATION) * dt\<close>: the quotient and the product
  are \<^verbatim>\<open>double\<close> operations, the initialisation rounds to \<^verbatim>\<open>float\<close>.
\<close>

definition brightness_step :: "32 word \<Rightarrow> rat" where
  "brightness_step dt = fl32 (fl64 (fl64 (255 / BRIGHTNESS_FADE_DURATION) * u32_to_double dt))"

text \<open>
  \<open>updateBrightnessSmoothly\<close>; \<open>now\<close> is the value of \<^verbatim>\<open>millis()\<close>. The compound
  assignments add and subtract in \<^verbatim>\<open>float\<close>; the comparisons convert \<open>targetBrightness\<close>
  to \<^verbatim>\<open>float\<close>.
\<close>

definition updateBrightnessSmoothly :: "32 word \<Rightarrow> sketch_state \<Rightarrow> sketch_state option" where
  "updateBrightnessSmoothly now s =
     (let currentMillis = now;
          dt = currentMillis - lastBrightUpdate s;
          step = brightness_step dt;
          target = u8_to_fp (targetBrightness s);
          cur = currentBrightnessPrecise s;
          cur' =
            (if cur < target then
               (let c = fl32 (cur + step) in if target < c then target else c)
             else if target < cur then
               (let c = fl32 (cur - step) in if c < target then target else c)
             else cur)
      in do {
           gb \<leftarrow> cast_u8 cur';
           Some (s\<lparr>lastBrightUpdate := currentMillis, currentBrightnessPrecise := cur',
                   globalBrightness := gb\<rparr>)
         })"

section \<open>Colour fade\<close>

definition live_FADE_DURATION_MS :: "32 word" where
  "live_FADE_DURATION_MS = 1800000"

definition demo_FADE_DURATION_MS :: "32 word" where
  "demo_FADE_DURATION_MS = 3000"

text \<open>
  One channel of the interpolation:
  \<^verbatim>\<open>(uint8_t)((startColor.r * (1.0 - factor)) + (endColor.r * factor))\<close>.
  The literal \<^verbatim>\<open>1.0\<close> makes the subtraction and the first product \<^verbatim>\<open>double\<close> operations.
  The second product has an \<^verbatim>\<open>int\<close> and a \<^verbatim>\<open>float\<close> operand, so it is a \<^verbatim>\<open>float\<close>
  multiplication, rounded to single precision before it is widened for the sum, which is
  a \<^verbatim>\<open>double\<close> addition. \<open>lerp_value\<close> is the \<^verbatim>\<open>double\<close> that is cast.
\<close>

definition lerp_value :: "8 word \<Rightarrow> 8 word \<Rightarrow> rat \<Rightarrow> rat" where
  "lerp_value sc ec factor =
     fl64 (fl64 (u8_to_fp sc * fl64 (1 - factor)) + fl32 (u8_to_fp ec * factor))"

definition lerp_channel :: "8 word \<Rightarrow> 8 word \<Rightarrow> rat \<Rightarrow> 8 word option" where
  "lerp_channel sc ec factor = cast_u8 (lerp_value sc ec factor)"

text \<open>\<^verbatim>\<open>(float)timeElapsed / FADE_DURATION_MS\<close>: a \<^verbatim>\<open>float\<close> division.\<close>

definition fade_factor :: "32 word \<Rightarrow> 32 word \<Rightarrow> rat" where
  "fade_factor duration timeElapsed =
     fl32 (u32_to_float timeElapsed / u32_to_float duration)"

text \<open>
  \<open>fade\<close> is the same text in both sketches; only the value of the macro
  \<^verbatim>\<open>FADE_DURATION_MS\<close> differs. \<open>now\<close> is the value of \<^verbatim>\<open>millis()\<close>.
\<close>

definition fade :: "32 word \<Rightarrow> 32 word \<Rightarrow> sketch_state \<Rightarrow> sketch_state option" where
  "fade duration now s =
     (let timeElapsed = now - fadeStartTime s
      in if timeElapsed < duration then
           (let factor = fade_factor duration timeElapsed
            in do {
                 cr \<leftarrow> lerp_channel (r (startColor s)) (r (endColor s)) factor;
                 cg \<leftarrow> lerp_channel (g (startColor s)) (g (endColor s)) factor;
                 cb \<leftarrow> lerp_channel (b (startColor s)) (b (endColor s)) factor;
                 Some (s\<lparr>currentColor := \<lparr>r = cr, g = cg, b = cb\<rparr>\<rparr>)
               })
         else Some (s\<lparr>currentColor := endColor s\<rparr>))"

definition live_fade :: "32 word \<Rightarrow> sketch_state \<Rightarrow> sketch_state option" where
  "live_fade = fade live_FADE_DURATION_MS"

definition demo_fade :: "32 word \<Rightarrow> sketch_state \<Rightarrow> sketch_state option" where
  "demo_fade = fade demo_FADE_DURATION_MS"

section \<open>Writing the strip\<close>

text \<open>
  \<^verbatim>\<open>strip.setPixelColor(i, r, g, b)\<close> stores the colour at index \<open>i\<close> of the pixel buffer
  and ignores an index outside it; \<^verbatim>\<open>strip.numPixels()\<close> is the length of the buffer.
\<close>

definition setPixelColor :: "nat \<Rightarrow> RGBColor \<Rightarrow> RGBColor list \<Rightarrow> RGBColor list" where
  "setPixelColor i c px = (if i < length px then px[i := c] else px)"

definition fill_strip :: "RGBColor \<Rightarrow> RGBColor list \<Rightarrow> RGBColor list" where
  "fill_strip c px = fold (\<lambda>i. setPixelColor i c) [0..<length px] px"


text \<open>
  \<open>applyCurrentColor\<close> of the demo sketch (lines 209-221).
  \<^verbatim>\<open>float scale = (float) globalBrightness / 255.0\<close> is a \<^verbatim>\<open>double\<close> division rounded to
  \<^verbatim>\<open>float\<close> by the initialisation; \<^verbatim>\<open>currentColor.r * scale\<close> is a \<^verbatim>\<open>float\<close> multiplication,
  and its value is cast to \<^verbatim>\<open>uint8_t\<close>.
\<close>

definition brightness_scale :: "8 word \<Rightarrow> rat" where
  "brightness_scale gb = fl32 (fl64 (u8_to_fp gb / 255))"

definition scaled_channel :: "8 word \<Rightarrow> rat \<Rightarrow> rat" where
  "scaled_channel c scale = fl32 (u8_to_fp c * scale)"

definition demo_applyCurrentColor :: "sketch_state \<Rightarrow> sketch_state option" where
  "demo_applyCurrentColor s =
     (let scale = brightness_scale (globalBrightness s)
      in do {
           cr \<leftarrow> cast_u8 (scaled_channel (r (currentColor s)) scale);
           cg \<leftarrow> cast_u8 (scaled_channel (g (currentColor s)) scale);
           cb \<leftarrow> cast_u8 (scaled_channel (b (currentColor s)) scale);
           Some (s\<lparr>strip := fill_strip \<lparr>r = cr, g = cg, b = cb\<rparr> (strip s)\<rparr>)
         })"

section \<open>One iteration of the demo loop\<close>

text \<open>
  What one iteration reads from outside: the five values of \<^verbatim>\<open>millis()\<close> (top of the loop,
  inside \<open>setupFade\<close>, \<open>updateBrightnessSmoothly\<close> and \<open>fade\<close>) and the echo pulse length.
  The LCD output is not modelled.
\<close>

record readings =
  millis_loop :: "32 word"
  millis_setupFade :: "32 word"
  echo_pulse :: "32 word"
  millis_bright :: "32 word"
  millis_fade :: "32 word"

definition demo_loop :: "readings \<Rightarrow> sketch_state \<Rightarrow> sketch_state option" where
  "demo_loop inp s =
     (let s1 = demo_loop_mode (millis_loop inp) (millis_setupFade inp) s;
          s2 = demo_loop_sensor (getDistance (echo_pulse inp)) s1
      in do {
           s3 \<leftarrow> updateBrightnessSmoothly (millis_bright inp) s2;
           s4 \<leftarrow> demo_fade (millis_fade inp) s3;
           demo_applyCurrentColor s4
         })"



text \<open>The globals of the demo sketch as initialised at program start.\<close>

definition demo_init :: sketch_state where
  "demo_init =
     \<lparr>fadeStartTime = 0, lastTimeUpdate = 0, lastLCDUpdate = 0, lastBrightUpdate = 0,
      simHour = 0, currentColor = demo_COLOR_NIGHT, startColor = demo_COLOR_NIGHT,
      endColor = demo_COLOR_NIGHT, currentMode = ''NIGHT'', targetBrightness = 255,
      currentBrightnessPrecise = 255, globalBrightness = 255,
      strip = replicate LED_COUNT \<lparr>r = 0, g = 0, b = 0\<rparr>\<rparr>"

section \<open>Reference formulas and example states\<close>

text \<open>The interpolation formula over the rationals, without any rounding.\<close>

definition lerp_exact :: "8 word \<Rightarrow> 8 word \<Rightarrow> rat \<Rightarrow> rat" where
  "lerp_exact sc ec f = u8_to_fp sc * (1 - f) + u8_to_fp ec * f"

text \<open>
  The channel value as the specification's testable property words it:
  \<open>round (start * (1 - f) + end * f)\<close> with \<open>f = elapsed / duration\<close>.
\<close>

definition spec_round_channel :: "8 word \<Rightarrow> 8 word \<Rightarrow> 32 word \<Rightarrow> 32 word \<Rightarrow> int" where
  "spec_round_channel sc ec elapsed duration =
     round (lerp_exact sc ec (of_nat (unat elapsed) / of_nat (unat duration)))"

text \<open>A fade from black to \<open>(1, 1, 1)\<close> that started at time 0.\<close>

definition fade_example :: sketch_state where
  "fade_example =
     demo_init\<lparr>fadeStartTime := 0, startColor := \<lparr>r = 0, g = 0, b = 0\<rparr>,
       endColor := \<lparr>r = 1, g = 1, b = 1\<rparr>\<rparr>"

text \<open>
  The mode and fade variables of the demo sketch at the end of its afternoon hold, the fade
  to white completed (the other variables as at program start), and the state its loop
  makes of it when the cycle reaches 20 seconds: the fade from the afternoon colour to the
  night colour has been set up.
\<close>

definition afternoon_example :: sketch_state where
  "afternoon_example =
     demo_init\<lparr>fadeStartTime := 10000, simHour := HOUR_AFTERNOON,
       currentColor := demo_COLOR_AFTERNOON, startColor := demo_COLOR_DAYTIME,
       endColor := demo_COLOR_AFTERNOON, currentMode := ''AFTERNOON''\<rparr>"

definition night_fade_example :: sketch_state where
  "night_fade_example = demo_loop_mode 20000 20000 afternoon_example"

text \<open>Full brightness while the target is 8 (hand at 34 cm in the demo sketch).\<close>

definition dimming_example :: sketch_state where
  "dimming_example = demo_init\<lparr>targetBrightness := 8\<rparr>"

text \<open>Brightness 8 while the target is back at 255.\<close>

definition brightening_example :: sketch_state where
  "brightening_example = demo_init\<lparr>currentBrightnessPrecise := 8, globalBrightness := 8\<rparr>"

section \<open>Properties of rounding\<close>

subsection \<open>Binary exponents\<close>

lemma log2n_bounds: "0 < n \<Longrightarrow> 2 ^ log2n n \<le> n \<and> n < 2 ^ Suc (log2n n)"
proof (induction n rule: log2n.induct)
  case (1 n)
  show ?case
  proof (cases "n < 2")
    case True
    with "1.prems" have "n = 1" by simp
    then show ?thesis by (simp add: log2n.simps)
  next
    case False
    then have pos: "0 < n div 2" by simp
    from "1.IH" [OF False pos]
    have lo: "2 ^ log2n (n div 2) \<le> n div 2" and hi: "n div 2 < 2 ^ Suc (log2n (n div 2))"
      by simp_all
    have eq: "log2n n = Suc (log2n (n div 2))"
      using False by (subst log2n.simps) simp
    have "2 * 2 ^ log2n (n div 2) \<le> n" using lo by linarith
    moreover have "n < 2 * 2 ^ Suc (log2n (n div 2))" using hi by linarith
    ultimately show ?thesis by (simp add: eq)
  qed
qed

lemma powi2_less_D: "(2::rat) powi i < 2 powi j \<Longrightarrow> i < j"
proof (rule ccontr)
  assume h: "(2::rat) powi i < 2 powi j" and "\<not> i < j"
  then have "j \<le> i" by simp
  then have "(2::rat) powi j \<le> 2 powi i" by (rule power_int_increasing) simp
  with h show False by simp
qed

lemma powi2_split: "(2::rat) powi i = 2 powi (i - j) * 2 powi j"
proof -
  have "(2::rat) powi ((i - j) + j) = 2 powi (i - j) * 2 powi j"
    by (rule power_int_add) simp
  then show ?thesis by simp
qed

lemma rat_of_nat_pow2_le: "2 ^ k \<le> n \<Longrightarrow> (2::rat) ^ k \<le> rat_of_nat n"
proof -
  assume "2 ^ k \<le> n"
  then have "rat_of_nat (2 ^ k) \<le> rat_of_nat n" by (simp only: of_nat_le_iff)
  then show ?thesis by simp
qed

lemma rat_of_nat_le_pow2: "n \<le> 2 ^ k \<Longrightarrow> rat_of_nat n \<le> 2 ^ k"
proof -
  assume "n \<le> 2 ^ k"
  then have "rat_of_nat n \<le> rat_of_nat (2 ^ k)" by (simp only: of_nat_le_iff)
  then show ?thesis by simp
qed

lemma ilog2_bounds:
  assumes "0 < x"
  shows "2 powi ilog2 x \<le> x" and "x < 2 powi (ilog2 x + 1)"
proof -
  have "2 powi ilog2 x \<le> x \<and> x < 2 powi (ilog2 x + 1)"
  proof (cases "1 \<le> x")
    case True
    define n where "n = nat \<lfloor>x\<rfloor>"
    have npos: "0 < n" using True by (simp add: n_def)
    have nx: "rat_of_nat n \<le> x" "x < rat_of_nat n + 1"
      using True by (simp_all add: n_def) linarith
    have e: "ilog2 x = int (log2n n)" using True by (simp add: ilog2_def n_def)
    from log2n_bounds [OF npos]
    have lo: "2 ^ log2n n \<le> n" and hi: "n + 1 \<le> 2 ^ Suc (log2n n)" by simp_all
    have "(2::rat) ^ log2n n \<le> rat_of_nat n"
      using lo by (rule rat_of_nat_pow2_le)
    moreover have "rat_of_nat (n + 1) \<le> 2 ^ Suc (log2n n)"
      using hi by (rule rat_of_nat_le_pow2)
    then have "rat_of_nat n + 1 \<le> 2 ^ Suc (log2n n)"
      by (simp only: of_nat_add of_nat_1)
    ultimately have "(2::rat) ^ log2n n \<le> x" "x < 2 ^ Suc (log2n n)"
      using nx by linarith+
    then show ?thesis
      by (simp add: e power_int_add)
  next
    case False
    define y where "y = 1 / x"
    define n where "n = nat \<lceil>y\<rceil>"
    have y1: "1 < y" using False assms by (simp add: y_def)
    have "2 \<le> \<lceil>y\<rceil>" using y1 by linarith
    then have n2: "2 \<le> n" unfolding n_def by linarith
    have ny: "y \<le> rat_of_nat n" "rat_of_nat n - 1 < y"
      using y1 by (simp_all add: n_def  of_nat_nat) linarith+
    define c where "c = log2n (n - 1)"
    have e: "ilog2 x = - int (Suc c)"
      using False n2 by (simp add: ilog2_def n_def y_def c_def Let_def)
    have "0 < n - 1" using n2 by simp
    from log2n_bounds [OF this]
    have lo: "2 ^ c \<le> n - 1" and hi: "n \<le> 2 ^ Suc c" unfolding c_def by linarith+
    have "rat_of_nat n \<le> 2 ^ Suc c"
      using hi by (rule rat_of_nat_le_pow2)
    then have "1 / x \<le> 2 ^ Suc c" using ny unfolding y_def by linarith
    then have "1 / 2 ^ Suc c \<le> x"
      using assms by (simp add: field_simps)
    then have A: "2 powi (- int (Suc c)) \<le> x"
      by (simp only: power_int_minus_divide power_int_of_nat)
    have "(2::rat) ^ c \<le> rat_of_nat (n - 1)" using lo by (rule rat_of_nat_pow2_le)
    moreover have "rat_of_nat (n - 1) = rat_of_nat n - 1" using n2 by (simp add: of_nat_diff)
    ultimately have "2 ^ c < 1 / x" using ny unfolding y_def by linarith
    then have "x < 1 / 2 ^ c"
      using assms by (simp add: field_simps)
    then have B: "x < 2 powi (- int c)"
      by (simp only: power_int_minus_divide power_int_of_nat)
    have "- int (Suc c) + 1 = - int c" by simp
    then show ?thesis using A B by (simp only: e)
  qed
  then show "2 powi ilog2 x \<le> x" and "x < 2 powi (ilog2 x + 1)" by simp_all
qed

lemma ilog2_mono:
  assumes "0 < x" "x \<le> y"
  shows "ilog2 x \<le> ilog2 y"
proof -
  have "2 powi ilog2 x \<le> x" using assms ilog2_bounds(1) by simp
  also have "x \<le> y" by fact
  also have "y < 2 powi (ilog2 y + 1)" using assms ilog2_bounds(2) [of y] by simp
  finally have "(2::rat) powi ilog2 x < 2 powi (ilog2 y + 1)" .
  then have "ilog2 x < ilog2 y + 1" by (rule powi2_less_D)
  then show ?thesis by simp
qed

lemma ilog2_ge:
  assumes "2 powi k \<le> x"
  shows "k \<le> ilog2 x"
proof -
  have "(0::rat) < 2 powi k" by simp
  then have "0 < x" using assms by linarith
  have "2 powi k \<le> x" by fact
  also have "x < 2 powi (ilog2 x + 1)" using \<open>0 < x\<close> ilog2_bounds(2) by simp
  finally have "(2::rat) powi k < 2 powi (ilog2 x + 1)" .
  then have "k < ilog2 x + 1" by (rule powi2_less_D)
  then show ?thesis by simp
qed

subsection \<open>Rounding to an integer\<close>

lemma rhe_of_int: "round_half_even (of_int n) = n"
  by (simp add: round_half_even_def)

lemma rhe_cases: "round_half_even q = \<lfloor>q\<rfloor> \<or> round_half_even q = \<lfloor>q\<rfloor> + 1"
  by (simp add: round_half_even_def Let_def)

lemma rhe_mono:
  assumes "q \<le> t"
  shows "round_half_even q \<le> round_half_even t"
proof (cases "\<lfloor>q\<rfloor> < \<lfloor>t\<rfloor>")
  case True
  have "round_half_even q \<le> \<lfloor>q\<rfloor> + 1" using rhe_cases [of q] by linarith
  also have "\<dots> \<le> \<lfloor>t\<rfloor>" using True by simp
  also have "\<dots> \<le> round_half_even t" using rhe_cases [of t] by linarith
  finally show ?thesis .
next
  case False
  moreover have "\<lfloor>q\<rfloor> \<le> \<lfloor>t\<rfloor>" using assms by (rule floor_mono)
  ultimately have eq: "\<lfloor>q\<rfloor> = \<lfloor>t\<rfloor>" by simp
  then have "q - of_int \<lfloor>q\<rfloor> \<le> t - of_int \<lfloor>t\<rfloor>" using assms by simp
  then show ?thesis
    unfolding round_half_even_def Let_def eq by (simp split: if_splits)
qed

lemma rhe_minus: "round_half_even (- q) = - round_half_even q"
proof (cases "q \<in> \<int>")
  case True
  then obtain n where "q = of_int n" by (auto elim: Ints_cases)
  then have "- q = of_int (- n)" by simp
  then show ?thesis using rhe_of_int \<open>q = of_int n\<close> by metis
next
  case False
  then have "q \<noteq> of_int \<lfloor>q\<rfloor>" by (metis Ints_of_int)
  then have f: "\<lfloor>- q\<rfloor> = - \<lfloor>q\<rfloor> - 1"
    by (simp add: floor_minus ceiling_altdef)
  have d: "0 \<le> q - of_int \<lfloor>q\<rfloor>" "q - of_int \<lfloor>q\<rfloor> < 1" by linarith+
  show ?thesis
    unfolding round_half_even_def Let_def f using d
    by (auto split: if_splits)
qed

lemma rhe_nonneg: "0 \<le> q \<Longrightarrow> 0 \<le> round_half_even q"
  using rhe_mono [of 0 q] rhe_of_int [of 0] by simp

lemma rhe_error: "\<bar>of_int (round_half_even q) - q\<bar> \<le> 1 / 2"
proof -
  have "0 \<le> q - of_int \<lfloor>q\<rfloor>" "q - of_int \<lfloor>q\<rfloor> < 1" by linarith+
  then show ?thesis
    unfolding round_half_even_def Let_def by (auto split: if_splits)
qed

subsection \<open>Rounding to a floating-point value\<close>

lemma fl_zero: "fl p emin 0 = 0"
  by (simp add: fl_def)

lemma fl_minus: "fl p emin (- x) = - fl p emin x"
  by (simp add: fl_def rhe_minus Let_def)

lemma fl_pos_unfold:
  assumes "0 < x"
  shows "fl p emin x =
    of_int (round_half_even (x / 2 powi (max (ilog2 x) emin - (int p - 1))))
      * 2 powi (max (ilog2 x) emin - (int p - 1))"
  using assms by (simp add: fl_def Let_def)

lemma fl_nonneg:
  assumes "0 \<le> x"
  shows "0 \<le> fl p emin x"
proof (cases "x = 0")
  case True
  then show ?thesis by (simp add: fl_zero)
next
  case False
  with assms have pos: "0 < x" by simp
  have "0 \<le> x / 2 powi (max (ilog2 x) emin - (int p - 1))" using pos by simp
  then have "0 \<le> round_half_even (x / 2 powi (max (ilog2 x) emin - (int p - 1)))"
    by (rule rhe_nonneg)
  then show ?thesis unfolding fl_pos_unfold [OF pos] by simp
qed

lemma fl_upper:
  assumes "0 < x"
  shows "fl p emin x \<le> 2 powi (max (ilog2 x) emin + 1)"
proof -
  define e where "e = max (ilog2 x) emin"
  define u :: rat where "u = 2 powi (e - (int p - 1))"
  have upos: "0 < u" by (simp add: u_def)
  have "x < 2 powi (ilog2 x + 1)" using assms by (rule ilog2_bounds)
  also have "\<dots> \<le> 2 powi (e + 1)" by (rule power_int_increasing) (simp_all add: e_def)
  also have pw: "\<dots> = 2 ^ p * u"
  proof -
    have "e + 1 - (e - (int p - 1)) = int p" by linarith
    then have "(2::rat) powi (e + 1 - (e - (int p - 1))) = 2 ^ p"
      by (simp only: power_int_of_nat)
    with powi2_split [of "e + 1" "e - (int p - 1)"] show ?thesis by (simp only: u_def)
  qed
  finally have "x / u \<le> of_int (2 ^ p)" using upos by (simp add: field_simps)
  then have "round_half_even (x / u) \<le> 2 ^ p"
    using rhe_mono [of "x / u" "of_int (2 ^ p)"] by (simp only: rhe_of_int)
  then have "rat_of_int (round_half_even (x / u)) \<le> rat_of_int (2 ^ p)"
    by (simp only: of_int_le_iff)
  then have "of_int (round_half_even (x / u)) * u \<le> 2 ^ p * u"
    using upos by simp
  also have "2 ^ p * u = 2 powi (e + 1)"
    using pw by simp
  finally show ?thesis
    unfolding fl_pos_unfold [OF assms] e_def [symmetric] u_def [symmetric] .
qed

lemma fl_lower:
  assumes "0 < x" "emin \<le> ilog2 x" "0 < p"
  shows "2 powi ilog2 x \<le> fl p emin x"
proof -
  define e where "e = ilog2 x"
  have emax: "max (ilog2 x) emin = e" using assms by (simp add: e_def)
  define u :: rat where "u = 2 powi (e - (int p - 1))"
  have upos: "0 < u" by (simp add: u_def)
  have pw: "(2::rat) powi e = 2 ^ (p - 1) * u"
  proof -
    have "e - (e - (int p - 1)) = int (p - 1)" using assms(3) by linarith
    then have "(2::rat) powi (e - (e - (int p - 1))) = 2 ^ (p - 1)"
      by (simp only: power_int_of_nat)
    with powi2_split [of e "e - (int p - 1)"] show ?thesis by (simp only: u_def)
  qed
  have "2 powi e \<le> x" unfolding e_def using assms(1) by (rule ilog2_bounds)
  then have "of_int (2 ^ (p - 1)) \<le> x / u" using upos by (simp add: pw field_simps)
  then have "2 ^ (p - 1) \<le> round_half_even (x / u)"
    using rhe_mono [of "of_int (2 ^ (p - 1))" "x / u"] by (simp only: rhe_of_int)
  then have "rat_of_int (2 ^ (p - 1)) \<le> rat_of_int (round_half_even (x / u))"
    by (simp only: of_int_le_iff)
  then have "2 ^ (p - 1) * u \<le> of_int (round_half_even (x / u)) * u"
    using upos by simp
  moreover have "fl p emin x = of_int (round_half_even (x / u)) * u"
    unfolding fl_pos_unfold [OF assms(1)] emax u_def ..
  ultimately show ?thesis by (simp only: pw e_def [symmetric])
qed

lemma fl_mono_pos:
  assumes "0 < x" "x \<le> y" "0 < p"
  shows "fl p emin x \<le> fl p emin y"
proof -
  have ypos: "0 < y" using assms by simp
  define ex where "ex = max (ilog2 x) emin"
  define ey where "ey = max (ilog2 y) emin"
  have "ilog2 x \<le> ilog2 y" using assms(1,2) by (rule ilog2_mono)
  then have le: "ex \<le> ey" by (simp add: ex_def ey_def)
  show ?thesis
  proof (cases "ex = ey")
    case True
    have "x / 2 powi (ey - (int p - 1)) \<le> y / 2 powi (ey - (int p - 1))"
      using assms(2) by (simp add: divide_right_mono)
    then have "round_half_even (x / 2 powi (ey - (int p - 1)))
        \<le> round_half_even (y / 2 powi (ey - (int p - 1)))"
      by (rule rhe_mono)
    then have "rat_of_int (round_half_even (x / 2 powi (ey - (int p - 1))))
        \<le> rat_of_int (round_half_even (y / 2 powi (ey - (int p - 1))))"
      by (simp only: of_int_le_iff)
    then show ?thesis
      unfolding fl_pos_unfold [OF assms(1)] fl_pos_unfold [OF ypos]
        ex_def [symmetric] ey_def [symmetric] True
      by (simp add: mult_right_mono)
  next
    case False
    with le have lt: "ex < ey" by simp
    then have ey: "ey = ilog2 y" "emin \<le> ilog2 y" by (simp_all add: ex_def ey_def max_def split: if_splits)
    have "fl p emin x \<le> 2 powi (ex + 1)"
      unfolding ex_def using assms(1) by (rule fl_upper)
    also have "\<dots> \<le> 2 powi ey" by (rule power_int_increasing) (use lt in simp_all)
    also have "\<dots> \<le> fl p emin y"
      unfolding ey(1) using ypos ey(2) assms(3) by (rule fl_lower)
    finally show ?thesis .
  qed
qed

lemma fl_mono:
  assumes "x \<le> y" "0 < p"
  shows "fl p emin x \<le> fl p emin y"
proof -
  consider "0 < x" | "x \<le> 0" "0 \<le> y" | "y < 0" by linarith
  then show ?thesis
  proof cases
    case 1
    then show ?thesis using assms by (rule fl_mono_pos)
  next
    case 2
    have "fl p emin x = - fl p emin (- x)" by (simp add: fl_minus)
    moreover have "0 \<le> fl p emin (- x)" using 2 by (intro fl_nonneg) simp
    moreover have "0 \<le> fl p emin y" using 2 by (intro fl_nonneg)
    ultimately show ?thesis by linarith
  next
    case 3
    then have "0 < - y" "- y \<le> - x" using assms by simp_all
    then have "fl p emin (- y) \<le> fl p emin (- x)" using assms(2) by (rule fl_mono_pos)
    then show ?thesis by (simp add: fl_minus)
  qed
qed

lemma fl_grid:
  assumes "0 < x" "i \<le> max (ilog2 x) emin - (int p - 1)"
  shows "\<exists>n. fl p emin x = of_int n * 2 powi i"
proof -
  define j where "j = max (ilog2 x) emin - (int p - 1)"
  define c where "c = round_half_even (x / 2 powi j)"
  have "(2::rat) powi j = 2 powi (j - i) * 2 powi i" by (rule powi2_split)
  also have "(2::rat) powi (j - i) = 2 ^ nat (j - i)"
    using assms(2) by (simp add: j_def power_int_def)
  finally have "fl p emin x = of_int (c * 2 ^ nat (j - i)) * 2 powi i"
    unfolding fl_pos_unfold [OF assms(1)] j_def [symmetric] c_def [symmetric] by simp
  then show ?thesis ..
qed

lemma fl_exact_pos:
  assumes "0 < m" "m < 2 ^ p" "emin - (int p - 1) \<le> k"
  shows "fl p emin (of_int m * 2 powi k) = of_int m * 2 powi k"
proof -
  define x :: rat where "x = of_int m * 2 powi k"
  have xpos: "0 < x" using assms(1) by (simp add: x_def)
  define j where "j = max (ilog2 x) emin - (int p - 1)"
  have jk: "j \<le> k"
  proof (cases "ilog2 x \<le> emin")
    case True
    then show ?thesis using assms(3) by (simp add: j_def)
  next
    case False
    have "2 powi ilog2 x \<le> x" using xpos by (rule ilog2_bounds)
    also have "x < 2 ^ p * 2 powi k"
    proof -
      have "rat_of_int m < rat_of_int (2 ^ p)" using assms(2) by (simp only: of_int_less_iff)
      then show ?thesis by (simp add: x_def)
    qed
    also have "2 ^ p * 2 powi k = (2::rat) powi (int p + k)"
      by (simp add: power_int_add)
    finally have "ilog2 x < int p + k" by (rule powi2_less_D)
    then show ?thesis using False by (simp add: j_def)
  qed
  have "(2::rat) powi k = 2 powi (k - j) * 2 powi j" by (rule powi2_split)
  also have "(2::rat) powi (k - j) = 2 ^ nat (k - j)"
    using jk by (simp add: power_int_def)
  finally have pk: "(2::rat) powi k = 2 ^ nat (k - j) * 2 powi j" .
  have "x / 2 powi j = of_int (m * 2 ^ nat (k - j))"
    by (simp add: x_def pk)
  then have "round_half_even (x / 2 powi j) = m * 2 ^ nat (k - j)"
    by (simp only: rhe_of_int)
  then have "fl p emin x = of_int (m * 2 ^ nat (k - j)) * 2 powi j"
    unfolding fl_pos_unfold [OF xpos] j_def [symmetric] by simp
  also have "\<dots> = x" by (simp add: x_def pk)
  finally show ?thesis by (simp only: x_def)
qed

lemma fl_exact:
  assumes "\<bar>m\<bar> < 2 ^ p" "emin - (int p - 1) \<le> k"
  shows "fl p emin (of_int m * 2 powi k) = of_int m * 2 powi k"
proof -
  consider "0 < m" | "m = 0" | "m < 0" by linarith
  then show ?thesis
  proof cases
    case 1
    then show ?thesis using assms by (intro fl_exact_pos) simp_all
  next
    case 2
    then show ?thesis by (simp add: fl_zero)
  next
    case 3
    then have "fl p emin (of_int (- m) * 2 powi k) = of_int (- m) * 2 powi k"
      using assms by (intro fl_exact_pos) simp_all
    then have "fl p emin (- (of_int m * 2 powi k)) = - (of_int m * 2 powi k)" by simp
    then show ?thesis by (simp only: fl_minus)
  qed
qed

lemma fl_exact_nat:
  assumes "n < 2 ^ p" "emin \<le> int p - 1"
  shows "fl p emin (of_nat n) = of_nat n"
proof -
  have "\<bar>int n\<bar> < 2 ^ p" using assms(1) by (metis abs_of_nat of_nat_less_iff of_nat_numeral of_nat_power)
  then have "fl p emin (of_int (int n) * 2 powi 0) = of_int (int n) * 2 powi 0"
    using assms(2) by (intro fl_exact) simp_all
  then show ?thesis by simp
qed

lemma fl_idem_pos:
  assumes "0 < x" "0 < p"
  shows "fl p emin (fl p emin x) = fl p emin x"
proof -
  define j where "j = max (ilog2 x) emin - (int p - 1)"
  define c where "c = round_half_even (x / 2 powi j)"
  have flx: "fl p emin x = of_int c * 2 powi j"
    unfolding fl_pos_unfold [OF assms(1)] j_def c_def ..
  have "0 \<le> x / 2 powi j" using assms(1) by simp
  then have c0: "0 \<le> c" unfolding c_def by (rule rhe_nonneg)
  have "fl p emin x \<le> 2 powi (max (ilog2 x) emin + 1)" using assms(1) by (rule fl_upper)
  also have "(2::rat) powi (max (ilog2 x) emin + 1) = 2 powi (max (ilog2 x) emin + 1 - j) * 2 powi j"
    by (rule powi2_split)
  also have "max (ilog2 x) emin + 1 - j = int p" by (simp add: j_def)
  finally have "of_int c * 2 powi j \<le> (2::rat) ^ p * 2 powi j" by (simp add: flx)
  then have "rat_of_int c \<le> rat_of_int (2 ^ p)" by simp
  then have cp: "c \<le> 2 ^ p" by (simp only: of_int_le_iff)
  have jmin: "emin - (int p - 1) \<le> j" by (simp add: j_def)
  show ?thesis
  proof (cases "c = 2 ^ p")
    case False
    with cp c0 have "\<bar>c\<bar> < 2 ^ p" by simp
    then have "fl p emin (of_int c * 2 powi j) = of_int c * 2 powi j"
      using jmin by (rule fl_exact)
    then show ?thesis by (simp only: flx)
  next
    case True
    have pp: "(2::int) ^ p = 2 * 2 ^ (p - 1)" using assms(2) by (cases p) simp_all
    have "(2::rat) powi (j + 1) = 2 powi j * 2" by (simp add: power_int_add)
    then have eq: "rat_of_int c * 2 powi j = of_int (2 ^ (p - 1)) * 2 powi (j + 1)"
      by (simp add: True pp)
    have "\<bar>(2::int) ^ (p - 1)\<bar> < 2 ^ p" using assms(2) by simp
    moreover have "emin - (int p - 1) \<le> j + 1" using jmin by simp
    ultimately have "fl p emin (of_int (2 ^ (p - 1)) * 2 powi (j + 1))
        = of_int (2 ^ (p - 1)) * 2 powi (j + 1)"
      by (rule fl_exact)
    then show ?thesis by (simp only: flx eq)
  qed
qed

lemma fl_idem:
  assumes "0 < p"
  shows "fl p emin (fl p emin x) = fl p emin x"
proof -
  consider "0 < x" | "x = 0" | "x < 0" by linarith
  then show ?thesis
  proof cases
    case 1
    then show ?thesis using assms by (rule fl_idem_pos)
  next
    case 2
    then show ?thesis by (simp add: fl_zero)
  next
    case 3
    then have "fl p emin (fl p emin (- x)) = fl p emin (- x)"
      using assms by (intro fl_idem_pos) simp_all
    then show ?thesis by (simp add: fl_minus)
  qed
qed

lemma fl_error_pos:
  assumes "0 < x"
  shows "\<bar>fl p emin x - x\<bar> \<le> 2 powi (max (ilog2 x) emin - (int p - 1)) / 2"
proof -
  define u :: rat where "u = 2 powi (max (ilog2 x) emin - (int p - 1))"
  have upos: "0 < u" by (simp add: u_def)
  have "fl p emin x - x = (of_int (round_half_even (x / u)) - x / u) * u"
    unfolding fl_pos_unfold [OF assms] u_def [symmetric] using upos
    by (simp add: algebra_simps)
  then have "\<bar>fl p emin x - x\<bar> = \<bar>of_int (round_half_even (x / u)) - x / u\<bar> * u"
    using upos by (simp add: abs_mult)
  also have "\<dots> \<le> 1 / 2 * u"
    using rhe_error [of "x / u"] upos by (intro mult_right_mono) simp_all
  finally show ?thesis by (simp add: u_def)
qed

lemma fl_error_le:
  assumes "0 \<le> x" "x \<le> 2 powi k" "emin \<le> k - 1" "0 < p"
  shows "\<bar>fl p emin x - x\<bar> \<le> 2 powi (k - int p) / 2"
proof -
  consider "x = 0" | "x = 2 powi k" | "0 < x" "x < 2 powi k" using assms(1,2) by linarith
  then show ?thesis
  proof cases
    case 1
    then show ?thesis by (simp add: fl_zero)
  next
    case 2
    have "fl p emin (of_int 1 * 2 powi k) = of_int 1 * 2 powi k"
      using assms(3,4) by (intro fl_exact) simp_all
    then show ?thesis by (simp add: 2)
  next
    case 3
    have "2 powi ilog2 x \<le> x" using 3(1) by (rule ilog2_bounds)
    then have "(2::rat) powi ilog2 x < 2 powi k" using 3(2) by simp
    then have "ilog2 x < k" by (rule powi2_less_D)
    then have "max (ilog2 x) emin - (int p - 1) \<le> k - int p" using assms(3) by simp
    then have "(2::rat) powi (max (ilog2 x) emin - (int p - 1)) \<le> 2 powi (k - int p)"
      by (rule power_int_increasing) simp
    with fl_error_pos [OF 3(1), of p emin] show ?thesis by simp
  qed
qed

subsection \<open>Single and double precision, and the cast to 8 bits\<close>

lemma fl32_of_nat: "n < 2 ^ 24 \<Longrightarrow> fl32 (of_nat n) = of_nat n"
  unfolding fl32_def by (rule fl_exact_nat) simp_all

lemma fl32_u8: "fl32 (u8_to_fp w) = u8_to_fp w"
proof -
  have "unat w < 2 ^ 8" using unsigned_less [of w] by simp
  then have "unat w < 2 ^ 24" by simp
  then show ?thesis unfolding u8_to_fp_def by (rule fl32_of_nat)
qed

lemma fl32_mono: "x \<le> y \<Longrightarrow> fl32 x \<le> fl32 y"
  unfolding fl32_def by (rule fl_mono) simp_all

lemma fl32_nonneg: "0 \<le> x \<Longrightarrow> 0 \<le> fl32 x"
  unfolding fl32_def by (rule fl_nonneg)

lemma fl64_nonneg: "0 \<le> x \<Longrightarrow> 0 \<le> fl64 x"
  unfolding fl64_def by (rule fl_nonneg)

lemma fl64_mono: "x \<le> y \<Longrightarrow> fl64 x \<le> fl64 y"
  unfolding fl64_def by (rule fl_mono) simp_all

lemma fl64_of_nat: "n < 2 ^ 53 \<Longrightarrow> fl64 (of_nat n) = of_nat n"
  unfolding fl64_def by (rule fl_exact_nat) simp_all

lemma fl64_grid44:
  assumes "0 \<le> m" "m \<le> 255 * 2 ^ 44"
  shows "fl64 (of_int m / 2 ^ 44) = of_int m / 2 ^ 44"
proof -
  have "\<bar>m\<bar> < 2 ^ 53" using assms by simp
  then have "fl 53 (- 1022) (of_int m * 2 powi (- 44)) = of_int m * 2 powi (- 44)"
    by (rule fl_exact) simp
  then show ?thesis by (simp add: fl64_def power_int_minus_divide)
qed

lemma fl64_grid44_wide:
  assumes "0 \<le> m" "m < 2 ^ 53"
  shows "fl64 (of_int m / 2 ^ 44) = of_int m / 2 ^ 44"
proof -
  have "\<bar>m\<bar> < 2 ^ 53" using assms by simp
  then have "fl 53 (- 1022) (of_int m * 2 powi (- 44)) = of_int m * 2 powi (- 44)"
    by (rule fl_exact) simp
  then show ?thesis by (simp add: fl64_def power_int_minus_divide)
qed

lemma fl32_error_256:
  assumes "0 \<le> x" "x \<le> 256"
  shows "\<bar>fl32 x - x\<bar> \<le> 1 / 2 ^ 17"
proof -
  have "x \<le> 2 powi 8" using assms(2) by simp
  from fl_error_le [OF assms(1) this, of "- 126" 24]
  show ?thesis by (simp add: fl32_def power_int_minus_divide)
qed



text \<open>
  A single-precision value that is zero or at least \<open>1 / 2 ^ 21\<close> is a multiple of
  \<open>1 / 2 ^ 44\<close>.
\<close>

lemma fl32_grid44:
  assumes "x = 0 \<or> 1 / 2 ^ 21 \<le> x"
  shows "\<exists>n. 0 \<le> n \<and> fl32 x = of_int n / 2 ^ 44"
proof (cases "x = 0")
  case True
  then have "fl32 x = of_int 0 / 2 ^ 44" by (simp add: fl32_def fl_zero)
  then show ?thesis by (intro exI [of _ 0]) simp
next
  case False
  with assms have lo: "1 / 2 ^ 21 \<le> x" by simp
  have "(0::rat) < 1 / 2 ^ 21" by simp
  with lo have xpos: "0 < x" by linarith
  have "2 powi (- 21) \<le> x" using lo by (simp add: power_int_minus_divide)
  then have "- 21 \<le> ilog2 x" by (rule ilog2_ge)
  then have "- 44 \<le> max (ilog2 x) (- 126) - (int 24 - 1)" by simp
  with xpos obtain n where n: "fl 24 (- 126) x = of_int n * 2 powi (- 44)"
    using fl_grid by blast
  then have eq: "fl32 x = of_int n / 2 ^ 44"
    by (simp add: fl32_def power_int_minus_divide)
  have "0 \<le> fl32 x" using xpos by (intro fl32_nonneg) simp
  then have "0 \<le> n" by (simp add: eq zero_le_divide_iff)
  with eq show ?thesis by blast
qed

lemma fl32_pow21: "fl32 (1 / 2 ^ 21) = 1 / 2 ^ 21"
proof -
  have "fl 24 (- 126) (of_int 1 * 2 powi (- 21)) = of_int 1 * 2 powi (- 21)"
    by (rule fl_exact) simp_all
  then show ?thesis by (simp add: fl32_def power_int_minus_divide)
qed

lemma is_float32_fl32: "is_float32 (fl32 x)"
  unfolding is_float32_def fl32_def by (rule fl_idem) simp

lemma is_float32_u8: "is_float32 (u8_to_fp w)"
  unfolding is_float32_def by (rule fl32_u8)

lemma is_float32_examples: "is_float32 255" "is_float32 8"
proof -
  show "is_float32 255" using is_float32_u8 [of 255] by (simp add: u8_to_fp_def)
  show "is_float32 8" using is_float32_u8 [of 8] by (simp add: u8_to_fp_def)
qed

lemma u8_to_fp_range: "0 \<le> u8_to_fp w" "u8_to_fp w \<le> 255"
proof -
  have "unat w < 2 ^ 8" using unsigned_less [of w] by simp
  then have "unat w \<le> 255" by simp
  then have "rat_of_nat (unat w) \<le> rat_of_nat 255" by (simp only: of_nat_le_iff)
  then show "u8_to_fp w \<le> 255" unfolding u8_to_fp_def by simp
  show "0 \<le> u8_to_fp w" unfolding u8_to_fp_def by (rule of_nat_0_le_iff)
qed

lemma u8_to_fp_uint: "u8_to_fp w = of_int (uint w)"
  by (simp add: u8_to_fp_def)

lemma u8_to_fp_examples:
  "u8_to_fp 0 = 0" "u8_to_fp 1 = 1" "u8_to_fp 3 = 3" "u8_to_fp 140 = 140" "u8_to_fp 255 = 255"
  by (simp_all add: u8_to_fp_def)

lemma floor_u8:
  fixes x :: rat
  assumes "0 \<le> x" "x \<le> 255"
  shows "0 \<le> \<lfloor>x\<rfloor>" and "\<lfloor>x\<rfloor> \<le> 255" and "uint (word_of_int \<lfloor>x\<rfloor> :: 8 word) = \<lfloor>x\<rfloor>"
proof -
  show a: "0 \<le> \<lfloor>x\<rfloor>" using assms(1) by simp
  have "\<lfloor>x\<rfloor> \<le> \<lfloor>255 :: rat\<rfloor>" using assms(2) by (rule floor_mono)
  then show c: "\<lfloor>x\<rfloor> \<le> 255" by simp
  have "\<lfloor>x\<rfloor> < 2 ^ 8" using c by simp
  then have "take_bit 8 \<lfloor>x\<rfloor> = \<lfloor>x\<rfloor>" using a by (simp add: take_bit_int_eq_self)
  then show "uint (word_of_int \<lfloor>x\<rfloor> :: 8 word) = \<lfloor>x\<rfloor>"
    by (simp add: uint_word_of_int_eq)
qed

lemma cast_u8_in_range:
  assumes "0 \<le> x" "x \<le> 255"
  shows "cast_u8 x = Some (word_of_int \<lfloor>x\<rfloor>)"
  using assms floor_u8(1,2) [OF assms] by (simp add: cast_u8_def to_integer_def)

lemma cast_u8_below_256:
  fixes x :: rat
  assumes "0 \<le> x" "x < 256"
  shows "cast_u8 x = Some (word_of_int \<lfloor>x\<rfloor>)"
    and "uint (word_of_int \<lfloor>x\<rfloor> :: 8 word) = \<lfloor>x\<rfloor>"
    and "0 \<le> \<lfloor>x\<rfloor>" and "\<lfloor>x\<rfloor> \<le> 255"
proof -
  show a: "0 \<le> \<lfloor>x\<rfloor>" using assms(1) by simp
  have "\<lfloor>x\<rfloor> < 256" using assms(2) by (simp add: floor_less_iff)
  then show c: "\<lfloor>x\<rfloor> \<le> 255" by simp
  show "cast_u8 x = Some (word_of_int \<lfloor>x\<rfloor>)"
    using assms(1) a c by (simp add: cast_u8_def to_integer_def)
  have "\<lfloor>x\<rfloor> < 2 ^ 8" using c by simp
  then have "take_bit 8 \<lfloor>x\<rfloor> = \<lfloor>x\<rfloor>" using a by (simp add: take_bit_int_eq_self)
  then show "uint (word_of_int \<lfloor>x\<rfloor> :: 8 word) = \<lfloor>x\<rfloor>"
    by (simp add: uint_word_of_int_eq)
qed


section \<open>Mode selection is a function of the clock\<close>

lemma checkMode_currentMode: "currentMode (checkMode now h s) = fst (checkMode_select h)"
  by (simp add: checkMode_def live_setupFade_def split: prod.splits)

lemma checkMode_twice: "checkMode now2 h (checkMode now1 h s) = checkMode now1 h s"
proof -
  have "currentMode (checkMode now1 h s) = fst (checkMode_select h)"
    by (rule checkMode_currentMode)
  then show ?thesis
    by (simp add: checkMode_def [of now2] split: prod.splits)
qed

text \<open>
  Claim C5. In the live sketch the mode that \<open>checkMode\<close> selects, and stores in
  \<open>currentMode\<close>, depends on the hour alone: hours in \<open>[7, 17)\<close> give DAYTIME, hours in
  \<open>[17, 21)\<close> give AFTERNOON, every other hour gives NIGHT; in particular 8, 18 and 22 give
  DAYTIME, AFTERNOON and NIGHT.
\<close>

theorem checkMode_selects_by_hour:
  "fst (checkMode_select h) =
     (if 7 \<le> h \<and> h < 17 then ''DAYTIME''
      else if 17 \<le> h \<and> h < 21 then ''AFTERNOON'' else ''NIGHT'')
   \<and> currentMode (checkMode now h s) = fst (checkMode_select h)
   \<and> fst (checkMode_select 8) = ''DAYTIME''
   \<and> fst (checkMode_select 18) = ''AFTERNOON''
   \<and> fst (checkMode_select 22) = ''NIGHT''"
  by (simp add: checkMode_currentMode checkMode_select_def HOUR_DAY_START_def
      HOUR_AFTERNOON_START_def HOUR_NIGHT_START_def)

text \<open>
  Claim C7. Calling \<open>checkMode\<close> a second time with the same hour changes nothing: the
  state after the second call is the state after the first, so \<open>startColor\<close>, \<open>endColor\<close>
  and \<open>fadeStartTime\<close> are unchanged and no second fade is started, whatever the clock
  shows at the second call.
\<close>

theorem checkMode_idempotent:
  "checkMode now2 h (checkMode now1 h s) = checkMode now1 h s
   \<and> startColor (checkMode now2 h (checkMode now1 h s)) = startColor (checkMode now1 h s)
   \<and> endColor (checkMode now2 h (checkMode now1 h s)) = endColor (checkMode now1 h s)
   \<and> fadeStartTime (checkMode now2 h (checkMode now1 h s)) = fadeStartTime (checkMode now1 h s)"
  by (simp add: checkMode_twice)

text \<open>
  Claim C8. In the demo sketch the mode stored after the mode part of \<open>loop\<close> is a function
  of \<open>cycleTime = millis() mod 30000\<close>: DAYTIME below 10000, AFTERNOON from 10000 to below
  20000, NIGHT from 20000 on; \<open>cycleTime\<close> is always below 30000, and at \<open>millis()\<close> equal
  to 0, 10000, 20000 and 30000 the mode is DAYTIME, AFTERNOON, NIGHT and DAYTIME again.
\<close>

theorem demo_cycle:
  "currentMode (demo_loop_mode currentMillis now s) =
     (if currentMillis mod 30000 < 10000 then ''DAYTIME''
      else if currentMillis mod 30000 < 20000 then ''AFTERNOON'' else ''NIGHT'')
   \<and> currentMillis mod 30000 < 30000
   \<and> currentMode (demo_loop_mode 0 now s) = ''DAYTIME''
   \<and> currentMode (demo_loop_mode 10000 now s) = ''AFTERNOON''
   \<and> currentMode (demo_loop_mode 20000 now s) = ''NIGHT''
   \<and> currentMode (demo_loop_mode 30000 now s) = ''DAYTIME''"
  by (simp add: demo_loop_mode_def Let_def HOLD_MODE_def setDemoMode_def demo_setupFade_def
      word_mod_less_divisor)

section \<open>Colour tables of the two sketches\<close>

text \<open>
  The second definition block of the live sketch has, name by name, the values of the
  block of the demo sketch.
\<close>

lemma live_second_block:
  "live_COLOR_DAYTIME = demo_COLOR_DAYTIME
   \<and> live_COLOR_AFTERNOON = demo_COLOR_AFTERNOON
   \<and> live_COLOR_NIGHT = demo_COLOR_NIGHT"
  by (simp add: live_COLOR_DAYTIME_def live_COLOR_AFTERNOON_def live_COLOR_NIGHT_def
      demo_COLOR_DAYTIME_def demo_COLOR_AFTERNOON_def demo_COLOR_NIGHT_def)



section \<open>End of a fade\<close>

lemma fade_after_duration:
  assumes "duration \<le> now - fadeStartTime s"
  shows "fade duration now s = Some (s\<lparr>currentColor := endColor s\<rparr>)"
proof -
  have "\<not> now - fadeStartTime s < duration" using assms by (simp add: not_less)
  then show ?thesis by (simp add: fade_def Let_def)
qed

text \<open>
  Claim C6. In both sketches, once the elapsed time \<open>millis() - fadeStartTime\<close> has reached
  \<open>FADE_DURATION_MS\<close>, \<open>fade\<close> sets \<open>currentColor\<close> to \<open>endColor\<close> itself, all three channels
  at once and without any arithmetic, and changes nothing else.
\<close>

theorem fade_complete:
  "(live_FADE_DURATION_MS \<le> now - fadeStartTime s
      \<longrightarrow> live_fade now s = Some (s\<lparr>currentColor := endColor s\<rparr>))
   \<and> (demo_FADE_DURATION_MS \<le> now - fadeStartTime s
      \<longrightarrow> demo_fade now s = Some (s\<lparr>currentColor := endColor s\<rparr>))"
  by (simp add: live_fade_def demo_fade_def fade_after_duration)

theorem fade_complete_witness:
  "live_FADE_DURATION_MS \<le> 1800000 - fadeStartTime fade_example
   \<and> live_fade 1800000 fade_example = Some (fade_example\<lparr>currentColor := \<lparr>r = 1, g = 1, b = 1\<rparr>\<rparr>)
   \<and> demo_FADE_DURATION_MS \<le> 1800000 - fadeStartTime fade_example
   \<and> demo_fade 1800000 fade_example = Some (fade_example\<lparr>currentColor := \<lparr>r = 1, g = 1, b = 1\<rparr>\<rparr>)"
  using fade_complete [of 1800000 fade_example]
  by (simp add: fade_example_def live_FADE_DURATION_MS_def demo_FADE_DURATION_MS_def)

section \<open>A fade in progress\<close>

subsection \<open>The interpolation factor\<close>

lemma fade_duration_small:
  assumes "duration = live_FADE_DURATION_MS \<or> duration = demo_FADE_DURATION_MS"
  shows "unat duration \<le> 2 ^ 21"
  using assms by (auto simp: live_FADE_DURATION_MS_def demo_FADE_DURATION_MS_def)

lemma fade_factor_error:
  assumes "unat duration \<le> 2 ^ 21" "timeElapsed < duration"
  shows "\<bar>fade_factor duration timeElapsed - of_nat (unat timeElapsed) / of_nat (unat duration)\<bar>
    \<le> 1 / 2 ^ 25"
proof -
  define a where "a = unat timeElapsed"
  define d where "d = unat duration"
  have ad: "a < d" using assms(2) by (simp add: a_def d_def word_less_nat_alt)
  have d21: "d \<le> 2 ^ 21" using assms(1) by (simp add: d_def)
  have lt: "d < 2 ^ 24" "a < 2 ^ 24" using ad d21 by simp_all
  have "u32_to_float timeElapsed = of_nat a"
    unfolding u32_to_float_def a_def [symmetric] using lt(2) by (rule fl32_of_nat)
  moreover have "u32_to_float duration = of_nat d"
    unfolding u32_to_float_def d_def [symmetric] using lt(1) by (rule fl32_of_nat)
  ultimately have ff: "fade_factor duration timeElapsed = fl32 (of_nat a / of_nat d)"
    by (simp only: fade_factor_def)
  define x :: rat where "x = of_nat a / of_nat d"
  have "\<bar>fl32 x - x\<bar> \<le> 1 / 2 ^ 25"
  proof (cases "a = 0")
    case True
    then show ?thesis by (simp add: x_def fl32_def fl_zero)
  next
    case False
    have xpos: "0 < x" using False ad by (simp add: x_def)
    have "x < 1" using ad by (simp add: x_def)
    moreover have "2 powi ilog2 x \<le> x" using xpos by (rule ilog2_bounds)
    ultimately have "(2::rat) powi ilog2 x < 2 powi 0" by simp
    then have "ilog2 x < 0" by (rule powi2_less_D)
    then have "max (ilog2 x) (- 126) - (int 24 - 1) \<le> - 24" by simp
    then have "(2::rat) powi (max (ilog2 x) (- 126) - (int 24 - 1)) \<le> 2 powi (- 24)"
      by (rule power_int_increasing) simp
    then have "(2::rat) powi (max (ilog2 x) (- 126) - (int 24 - 1)) / 2 \<le> 1 / 2 ^ 25"
      by (simp add: power_int_minus_divide)
    with fl_error_pos [OF xpos, of 24 "- 126"] show ?thesis
      unfolding fl32_def by linarith
  qed
  then show ?thesis by (simp only: ff x_def a_def d_def)
qed

text \<open>
  The factor of a fade in progress lies in \<open>[0, 1]\<close> and is zero or at least \<open>1 / 2 ^ 21\<close>.
\<close>

lemma fade_factor_range:
  assumes "unat duration \<le> 2 ^ 21" "timeElapsed < duration"
  shows "0 \<le> fade_factor duration timeElapsed"
    and "fade_factor duration timeElapsed \<le> 1"
    and "fade_factor duration timeElapsed = 0 \<or> 1 / 2 ^ 21 \<le> fade_factor duration timeElapsed"
proof -
  define a where "a = unat timeElapsed"
  define d where "d = unat duration"
  have ad: "a < d" using assms(2) by (simp add: a_def d_def word_less_nat_alt)
  have d21: "d \<le> 2 ^ 21" using assms(1) by (simp add: d_def)
  have lt: "d < 2 ^ 24" "a < 2 ^ 24" using ad d21 by simp_all
  have "u32_to_float timeElapsed = of_nat a"
    unfolding u32_to_float_def a_def [symmetric] using lt(2) by (rule fl32_of_nat)
  moreover have "u32_to_float duration = of_nat d"
    unfolding u32_to_float_def d_def [symmetric] using lt(1) by (rule fl32_of_nat)
  ultimately have ff: "fade_factor duration timeElapsed = fl32 (of_nat a / of_nat d)"
    by (simp only: fade_factor_def)
  define x :: rat where "x = of_nat a / of_nat d"
  have x0: "0 \<le> x" by (simp add: x_def)
  have x1: "x \<le> 1" using ad by (simp add: x_def)
  show "0 \<le> fade_factor duration timeElapsed"
    unfolding ff x_def [symmetric] using x0 by (rule fl32_nonneg)
  have "fl32 x \<le> fl32 (of_nat 1)" using x1 by (intro fl32_mono) simp
  also have "\<dots> = 1" using fl32_of_nat [of 1] by simp
  finally show "fade_factor duration timeElapsed \<le> 1" by (simp only: ff x_def)
  show "fade_factor duration timeElapsed = 0 \<or> 1 / 2 ^ 21 \<le> fade_factor duration timeElapsed"
  proof (cases "a = 0")
    case True
    then show ?thesis by (simp add: ff fl32_def fl_zero)
  next
    case False
    have dpos: "0 < d" using ad by simp
    have "rat_of_nat d \<le> rat_of_nat (2 ^ 21)" using d21 by (simp only: of_nat_le_iff)
    then have dr: "rat_of_nat d \<le> 2 ^ 21" by simp
    have "1 \<le> rat_of_nat a" using False by simp
    then have "1 / 2 ^ 21 \<le> x"
      using dr dpos unfolding x_def by (simp add: frac_le)
    then have "fl32 (1 / 2 ^ 21) \<le> fl32 x" by (rule fl32_mono)
    then have "1 / 2 ^ 21 \<le> fl32 x" by (simp only: fl32_pow21)
    then show ?thesis by (simp only: ff x_def) simp
  qed
qed

lemma u32_to_float_small: "unat w < 2 ^ 24 \<Longrightarrow> u32_to_float w = of_nat (unat w)"
  unfolding u32_to_float_def by (rule fl32_of_nat)

lemma fade_factor_demo:
  "unat w < 2 ^ 24 \<Longrightarrow> fade_factor demo_FADE_DURATION_MS w = fl32 (of_nat (unat w) / 3000)"
proof -
  assume w: "unat w < 2 ^ 24"
  have "u32_to_float demo_FADE_DURATION_MS = 3000"
    using fl32_of_nat [of 3000] by (simp add: u32_to_float_def demo_FADE_DURATION_MS_def)
  then show ?thesis by (simp only: fade_factor_def u32_to_float_small [OF w])
qed

lemma factor_2000_3000: "fl32 (2000 / 3000) = 11184811 / 16777216"
  by code_simp

lemma factor_7_3000: "fl32 (7 / 3000) = 5010795 / 2147483648"
  by code_simp

lemma factor_1_3000: "fl32 (1 / 3000) = 5726623 / 17179869184"
  by code_simp

lemma fade_factor_example: "fade_factor demo_FADE_DURATION_MS 2000 = 11184811 / 16777216"
proof -
  have "u32_to_float 2000 = 2000"
    using fl32_of_nat [of 2000] by (simp add: u32_to_float_def)
  moreover have "u32_to_float demo_FADE_DURATION_MS = 3000"
    using fl32_of_nat [of 3000] by (simp add: u32_to_float_def demo_FADE_DURATION_MS_def)
  ultimately show ?thesis
    by (simp only: fade_factor_def factor_2000_3000)
qed

lemma fade_factor_7: "fade_factor demo_FADE_DURATION_MS 7 = 5010795 / 2147483648"
  using fade_factor_demo [of 7] by (simp add: factor_7_3000)

lemma fade_factor_1: "fade_factor demo_FADE_DURATION_MS 1 = 5726623 / 17179869184"
  using fade_factor_demo [of 1] by (simp add: factor_1_3000)

lemma fade_example_elapsed:
  "(demo_FADE_DURATION_MS = live_FADE_DURATION_MS \<or> demo_FADE_DURATION_MS = demo_FADE_DURATION_MS)
   \<and> 2000 - fadeStartTime fade_example < demo_FADE_DURATION_MS"
  by (simp add: fade_example_def demo_FADE_DURATION_MS_def)

lemma demo_elapsed_examples:
  "demo_FADE_DURATION_MS = live_FADE_DURATION_MS \<or> demo_FADE_DURATION_MS = demo_FADE_DURATION_MS"
  "(1 :: 32 word) < demo_FADE_DURATION_MS" "(7 :: 32 word) < demo_FADE_DURATION_MS"
  "(2000 :: 32 word) < demo_FADE_DURATION_MS"
  by (simp_all add: demo_FADE_DURATION_MS_def)

subsection \<open>The interpolated value\<close>

lemma lerp_exact_between:
  assumes "0 \<le> f" "f \<le> 1"
  shows "min (u8_to_fp sc) (u8_to_fp ec) \<le> lerp_exact sc ec f"
    and "lerp_exact sc ec f \<le> max (u8_to_fp sc) (u8_to_fp ec)"
proof -
  define S where "S = u8_to_fp sc"
  define E where "E = u8_to_fp ec"
  have f1: "0 \<le> 1 - f" using assms(2) by simp
  have "min S E * (1 - f) \<le> S * (1 - f)" using f1 by (intro mult_right_mono) simp_all
  moreover have "min S E * f \<le> E * f" using assms(1) by (intro mult_right_mono) simp_all
  moreover have "min S E * (1 - f) + min S E * f = min S E" by (simp add: algebra_simps)
  ultimately show "min (u8_to_fp sc) (u8_to_fp ec) \<le> lerp_exact sc ec f"
    unfolding lerp_exact_def S_def [symmetric] E_def [symmetric] by linarith
  have "S * (1 - f) \<le> max S E * (1 - f)" using f1 by (intro mult_right_mono) simp_all
  moreover have "E * f \<le> max S E * f" using assms(1) by (intro mult_right_mono) simp_all
  moreover have "max S E * (1 - f) + max S E * f = max S E" by (simp add: algebra_simps)
  ultimately show "lerp_exact sc ec f \<le> max (u8_to_fp sc) (u8_to_fp ec)"
    unfolding lerp_exact_def S_def [symmetric] E_def [symmetric] by linarith
qed

lemma lerp_exact_range:
  assumes "0 \<le> f" "f \<le> 1"
  shows "0 \<le> lerp_exact sc ec f" and "lerp_exact sc ec f \<le> 255"
proof -
  have "0 \<le> min (u8_to_fp sc) (u8_to_fp ec)"
    using u8_to_fp_range(1) [of sc] u8_to_fp_range(1) [of ec] by simp
  then show "0 \<le> lerp_exact sc ec f"
    using lerp_exact_between(1) [OF assms, of sc ec] by linarith
  have "max (u8_to_fp sc) (u8_to_fp ec) \<le> 255"
    using u8_to_fp_range(2) [of sc] u8_to_fp_range(2) [of ec] by simp
  then show "lerp_exact sc ec f \<le> 255"
    using lerp_exact_between(2) [OF assms, of sc ec] by linarith
qed

lemma lerp_exact_lipschitz:
  "\<bar>lerp_exact sc ec f - lerp_exact sc ec q\<bar> \<le> 255 * \<bar>f - q\<bar>"
proof -
  have "lerp_exact sc ec f - lerp_exact sc ec q = (u8_to_fp ec - u8_to_fp sc) * (f - q)"
    by (simp add: lerp_exact_def algebra_simps)
  then have "\<bar>lerp_exact sc ec f - lerp_exact sc ec q\<bar> = \<bar>u8_to_fp ec - u8_to_fp sc\<bar> * \<bar>f - q\<bar>"
    by (simp add: abs_mult)
  also have "\<dots> \<le> 255 * \<bar>f - q\<bar>"
    using u8_to_fp_range [of sc] u8_to_fp_range [of ec] by (intro mult_right_mono) simp_all
  finally show ?thesis .
qed

text \<open>
  For a factor in \<open>[0, 1]\<close> that is zero or at least \<open>1 / 2 ^ 21\<close>, the three \<^verbatim>\<open>double\<close>
  operations of the interpolation are exact; the only rounding left is the one of the
  \<^verbatim>\<open>float\<close> product.
\<close>

lemma lerp_value_formula:
  assumes "0 \<le> f" "f \<le> 1" "f = 0 \<or> 1 / 2 ^ 21 \<le> f" "fl32 f = f"
  shows "lerp_value sc ec f = u8_to_fp sc * (1 - f) + fl32 (u8_to_fp ec * f)"
proof -
  from fl32_grid44 [OF assms(3)] obtain n where n0: "0 \<le> n" and fn: "f = of_int n / 2 ^ 44"
    by (auto simp: assms(4))
  have "rat_of_int n \<le> 2 ^ 44" using assms(2) by (simp add: fn)
  then have "rat_of_int n \<le> rat_of_int (2 ^ 44)" by simp
  then have n1: "n \<le> 2 ^ 44" by (simp only: of_int_le_iff)
  define S where "S = uint sc"
  define E where "E = uint ec"
  define c where "c = 2 ^ 44 - n"
  have S: "0 \<le> S" "S \<le> 255" using uint_lt2p [of sc] by (simp_all add: S_def)
  have E: "0 \<le> E" "E \<le> 255" using uint_lt2p [of ec] by (simp_all add: E_def)
  have us: "u8_to_fp sc = of_int S" by (simp add: u8_to_fp_def S_def)
  have ue: "u8_to_fp ec = of_int E" by (simp add: u8_to_fp_def E_def)
  have c: "0 \<le> c" "c \<le> 2 ^ 44" using n0 n1 by (simp_all add: c_def)
  have one: "1 - f = of_int c / 2 ^ 44"
    by (simp add: fn c_def field_simps)
  have r1: "fl64 (1 - f) = 1 - f"
    unfolding one using c by (intro fl64_grid44_wide) simp_all
  have p1: "u8_to_fp sc * (1 - f) = of_int (S * c) / 2 ^ 44"
    by (simp add: us one)
  have "0 \<le> S * c" using S(1) c(1) by (rule mult_nonneg_nonneg)
  moreover have "S * c \<le> 255 * c" using S(2) c(1) by (rule mult_right_mono)
  ultimately have b1: "0 \<le> S * c" "S * c \<le> 255 * 2 ^ 44"
    using c(2) by linarith+
  have r2: "fl64 (u8_to_fp sc * (1 - f)) = u8_to_fp sc * (1 - f)"
    unfolding p1 using b1 by (intro fl64_grid44_wide) simp_all
  define y where "y = u8_to_fp ec * f"
  have y0: "0 \<le> y" unfolding y_def using u8_to_fp_range(1) assms(1) by (rule mult_nonneg_nonneg)
  have "u8_to_fp ec * f \<le> 255 * 1"
    using u8_to_fp_range(2) assms(2) assms(1) by (intro mult_mono) simp_all
  then have y255: "y \<le> 255" by (simp add: y_def)
  have ygrid: "y = 0 \<or> 1 / 2 ^ 21 \<le> y"
  proof (cases "E = 0 \<or> f = 0")
    case True
    then show ?thesis by (auto simp: y_def ue)
  next
    case False
    then have "1 \<le> E" "1 / 2 ^ 21 \<le> f" using E(1) assms(3) by auto
    then have "1 * (1 / 2 ^ 21) \<le> rat_of_int E * f"
      by (intro mult_mono) simp_all
    then show ?thesis by (simp add: y_def ue)
  qed
  from fl32_grid44 [OF ygrid] obtain k where k0: "0 \<le> k" and qk: "fl32 y = of_int k / 2 ^ 44"
    by blast
  have "fl32 y \<le> fl32 (of_nat 255)" using y255 by (intro fl32_mono) simp
  also have "\<dots> = 255" using fl32_of_nat [of 255] by simp
  finally have "rat_of_int k \<le> 255 * 2 ^ 44" by (simp add: qk field_simps)
  then have "rat_of_int k \<le> rat_of_int (255 * 2 ^ 44)" by simp
  then have k1: "k \<le> 255 * 2 ^ 44" by (simp only: of_int_le_iff)
  have p3: "u8_to_fp sc * (1 - f) + fl32 y = of_int (S * c + k) / 2 ^ 44"
    by (simp add: p1 qk add_divide_distrib)
  have "0 \<le> S * c + k" "S * c + k < 2 ^ 53"
    using b1 k0 k1 by simp_all
  then have r4: "fl64 (u8_to_fp sc * (1 - f) + fl32 y) = u8_to_fp sc * (1 - f) + fl32 y"
    unfolding p3 by (rule fl64_grid44_wide)
  show ?thesis by (simp only: lerp_value_def r1 r2 r4 y_def [symmetric])
qed

lemma lerp_value_near_exact:
  assumes "0 \<le> f" "f \<le> 1" "f = 0 \<or> 1 / 2 ^ 21 \<le> f" "fl32 f = f"
  shows "\<bar>lerp_value sc ec f - lerp_exact sc ec f\<bar> \<le> 1 / 2 ^ 17"
proof -
  have y0: "0 \<le> u8_to_fp ec * f" using u8_to_fp_range(1) assms(1) by (rule mult_nonneg_nonneg)
  have "u8_to_fp ec * f \<le> 255 * 1"
    using u8_to_fp_range(2) assms(2) assms(1) by (intro mult_mono) simp_all
  then have "u8_to_fp ec * f \<le> 256" by simp
  with y0 have "\<bar>fl32 (u8_to_fp ec * f) - u8_to_fp ec * f\<bar> \<le> 1 / 2 ^ 17"
    by (rule fl32_error_256)
  then show ?thesis
    unfolding lerp_value_formula [OF assms] lerp_exact_def by simp
qed

text \<open>What \<open>fade\<close> computes for one channel while the fade is in progress.\<close>

lemma lerp_channel_in_progress:
  assumes "duration = live_FADE_DURATION_MS \<or> duration = demo_FADE_DURATION_MS"
    and "timeElapsed < duration"
  shows "lerp_value sc ec (fade_factor duration timeElapsed)
      = u8_to_fp sc * (1 - fade_factor duration timeElapsed)
        + fl32 (u8_to_fp ec * fade_factor duration timeElapsed)"
    and "\<bar>lerp_value sc ec (fade_factor duration timeElapsed)
          - lerp_exact sc ec (fade_factor duration timeElapsed)\<bar> \<le> 1 / 2 ^ 17"
    and "\<bar>lerp_value sc ec (fade_factor duration timeElapsed)
          - lerp_exact sc ec (of_nat (unat timeElapsed) / of_nat (unat duration))\<bar> \<le> 1 / 2 ^ 16"
    and "0 \<le> lerp_value sc ec (fade_factor duration timeElapsed)"
    and "lerp_value sc ec (fade_factor duration timeElapsed) < 256"
    and "lerp_channel sc ec (fade_factor duration timeElapsed)
      = Some (word_of_int \<lfloor>lerp_value sc ec (fade_factor duration timeElapsed)\<rfloor>)"
    and "uint (word_of_int \<lfloor>lerp_value sc ec (fade_factor duration timeElapsed)\<rfloor> :: 8 word)
      = \<lfloor>lerp_value sc ec (fade_factor duration timeElapsed)\<rfloor>"
proof -
  define f where "f = fade_factor duration timeElapsed"
  define q :: rat where "q = of_nat (unat timeElapsed) / of_nat (unat duration)"
  note small = fade_duration_small [OF assms(1)]
  note fr = fade_factor_range [OF small assms(2), folded f_def]
  have ff: "fl32 f = f"
    using is_float32_fl32 by (simp add: f_def fade_factor_def is_float32_def)
  show "lerp_value sc ec f = u8_to_fp sc * (1 - f) + fl32 (u8_to_fp ec * f)"
    using fr ff by (rule lerp_value_formula)
  have near: "\<bar>lerp_value sc ec f - lerp_exact sc ec f\<bar> \<le> 1 / 2 ^ 17"
    using fr ff by (rule lerp_value_near_exact)
  then show "\<bar>lerp_value sc ec f - lerp_exact sc ec f\<bar> \<le> 1 / 2 ^ 17" .
  have "\<bar>f - q\<bar> \<le> 1 / 2 ^ 25"
    unfolding f_def q_def using small assms(2) by (rule fade_factor_error)
  then have "255 * \<bar>f - q\<bar> \<le> 1 / 2 ^ 17" by simp
  with lerp_exact_lipschitz [of sc ec f q]
  have "\<bar>lerp_exact sc ec f - lerp_exact sc ec q\<bar> \<le> 1 / 2 ^ 17" by linarith
  moreover have "\<bar>lerp_value sc ec f - lerp_exact sc ec q\<bar>
      \<le> \<bar>lerp_value sc ec f - lerp_exact sc ec f\<bar> + \<bar>lerp_exact sc ec f - lerp_exact sc ec q\<bar>"
    by linarith
  moreover have "(1::rat) / 2 ^ 17 + 1 / 2 ^ 17 = 1 / 2 ^ 16" by simp
  ultimately show "\<bar>lerp_value sc ec f - lerp_exact sc ec q\<bar> \<le> 1 / 2 ^ 16"
    using near by linarith
  note rg = lerp_exact_range [OF fr(1,2), of sc ec]
  show lo: "0 \<le> lerp_value sc ec f"
    unfolding lerp_value_formula [OF fr ff]
    using u8_to_fp_range(1) [of sc] u8_to_fp_range(1) [of ec] fr(1,2)
    by (intro add_nonneg_nonneg mult_nonneg_nonneg fl32_nonneg) simp_all
  have "(1::rat) / 2 ^ 17 < 1" by simp
  then show hi: "lerp_value sc ec f < 256" using near rg by linarith
  show "lerp_channel sc ec f = Some (word_of_int \<lfloor>lerp_value sc ec f\<rfloor>)"
    unfolding lerp_channel_def using lo hi by (rule cast_u8_below_256)
  show "uint (word_of_int \<lfloor>lerp_value sc ec f\<rfloor> :: 8 word) = \<lfloor>lerp_value sc ec f\<rfloor>"
    using lo hi by (rule cast_u8_below_256)
qed

lemma fade_in_progress_result:
  assumes "duration = live_FADE_DURATION_MS \<or> duration = demo_FADE_DURATION_MS"
    and "now - fadeStartTime s < duration"
  shows "\<exists>cc. fade duration now s = Some (s\<lparr>currentColor := cc\<rparr>)
    \<and> uint (r cc) = \<lfloor>lerp_value (r (startColor s)) (r (endColor s))
                        (fade_factor duration (now - fadeStartTime s))\<rfloor>
    \<and> uint (g cc) = \<lfloor>lerp_value (g (startColor s)) (g (endColor s))
                        (fade_factor duration (now - fadeStartTime s))\<rfloor>
    \<and> uint (b cc) = \<lfloor>lerp_value (b (startColor s)) (b (endColor s))
                        (fade_factor duration (now - fadeStartTime s))\<rfloor>"
proof -
  define f where "f = fade_factor duration (now - fadeStartTime s)"
  note ch = lerp_channel_in_progress [OF assms, folded f_def]
  have "fade duration now s = Some (s\<lparr>currentColor :=
      \<lparr>r = word_of_int \<lfloor>lerp_value (r (startColor s)) (r (endColor s)) f\<rfloor>,
       g = word_of_int \<lfloor>lerp_value (g (startColor s)) (g (endColor s)) f\<rfloor>,
       b = word_of_int \<lfloor>lerp_value (b (startColor s)) (b (endColor s)) f\<rfloor>\<rparr>\<rparr>)"
    using assms(2) by (simp add: fade_def Let_def f_def [symmetric] ch(6))
  then show ?thesis
    unfolding f_def [symmetric]
    by (intro exI conjI) (assumption, simp_all only: RGBColor.select_convs ch(7))
qed

lemma fade_cast_result:
  assumes "duration = live_FADE_DURATION_MS \<or> duration = demo_FADE_DURATION_MS"
    and "timeElapsed < duration"
  shows "\<exists>c. lerp_channel sc ec (fade_factor duration timeElapsed) = Some c
          \<and> of_int (uint c) \<le> lerp_value sc ec (fade_factor duration timeElapsed)
          \<and> lerp_value sc ec (fade_factor duration timeElapsed) < of_int (uint c) + 1
          \<and> min (uint sc) (uint ec) - 1 \<le> uint c \<and> uint c \<le> max (uint sc) (uint ec)"
    and "min (u8_to_fp sc) (u8_to_fp ec) - 1 / 2 ^ 17
          \<le> lerp_value sc ec (fade_factor duration timeElapsed)"
    and "lerp_value sc ec (fade_factor duration timeElapsed)
          \<le> max (u8_to_fp sc) (u8_to_fp ec) + 1 / 2 ^ 17"
proof -
  define k where "k = fade_factor duration timeElapsed"
  define v where "v = lerp_value sc ec k"
  note ch = lerp_channel_in_progress [OF assms, of sc ec, folded k_def, folded v_def]
  note fr = fade_factor_range [OF fade_duration_small [OF assms(1)] assms(2), folded k_def]
  note bt = lerp_exact_between [OF fr(1,2), of sc ec]
  show lo: "min (u8_to_fp sc) (u8_to_fp ec) - 1 / 2 ^ 17 \<le> v"
    using ch(2) bt(1) by linarith
  show hi: "v \<le> max (u8_to_fp sc) (u8_to_fp ec) + 1 / 2 ^ 17"
    using ch(2) bt(2) by linarith
  have mm: "min (u8_to_fp sc) (u8_to_fp ec) = of_int (min (uint sc) (uint ec))"
    "max (u8_to_fp sc) (u8_to_fp ec) = of_int (max (uint sc) (uint ec))"
    unfolding u8_to_fp_uint by (simp_all only: of_int_min of_int_max)
  have small: "(1::rat) / 2 ^ 17 < 1" by simp
  have "rat_of_int (min (uint sc) (uint ec)) - 1 \<le> v" using lo small unfolding mm by linarith
  then have "rat_of_int (min (uint sc) (uint ec) - 1) \<le> v" by simp
  then have c1: "min (uint sc) (uint ec) - 1 \<le> \<lfloor>v\<rfloor>" by (simp only: le_floor_iff)
  have "v < rat_of_int (max (uint sc) (uint ec)) + 1" using hi small unfolding mm by linarith
  then have c2: "\<lfloor>v\<rfloor> \<le> max (uint sc) (uint ec)" by (simp only: floor_le_iff)
  have "rat_of_int \<lfloor>v\<rfloor> \<le> v" "v < rat_of_int \<lfloor>v\<rfloor> + 1" by linarith+
  with c1 c2 show "\<exists>c. lerp_channel sc ec k = Some c
          \<and> of_int (uint c) \<le> v \<and> v < of_int (uint c) + 1
          \<and> min (uint sc) (uint ec) - 1 \<le> uint c \<and> uint c \<le> max (uint sc) (uint ec)"
    by (intro exI [of _ "word_of_int \<lfloor>v\<rfloor>"]) (simp only: ch(6) ch(7) simp_thms)
qed

subsection \<open>Values at some instants\<close>

lemma product_examples:
  "fl32 (u8_to_fp 1 * (11184811 / 16777216)) = 11184811 / 16777216"
  "fl32 (u8_to_fp 255 * (5010795 / 2147483648)) = 9982443 / 16777216"
  "fl32 (u8_to_fp 140 * (5010795 / 2147483648)) = 5480557 / 16777216"
  "fl32 (u8_to_fp 0 * (5010795 / 2147483648)) = 0"
  "fl32 (u8_to_fp 255 * (5726623 / 17179869184)) = 11408507 / 134217728"
  "fl32 (u8_to_fp 3 * (5726623 / 17179869184)) = 4294967 / 4294967296"
  unfolding u8_to_fp_examples by code_simp+

lemma lerp_value_at:
  assumes "duration = live_FADE_DURATION_MS \<or> duration = demo_FADE_DURATION_MS"
    and "timeElapsed < duration"
    and "fade_factor duration timeElapsed = f"
    and "fl32 (u8_to_fp ec * f) = p"
  shows "lerp_value sc ec (fade_factor duration timeElapsed) = u8_to_fp sc * (1 - f) + p"
  using lerp_channel_in_progress(1) [OF assms(1,2), of sc ec] by (simp only: assms(3,4))

text \<open>
  The \<^verbatim>\<open>double\<close> that \<open>fade\<close> casts at some instants of the demo sketch: two seconds into a
  fade from 0 to 1, seven milliseconds into a fade between equal or different channel
  values, one millisecond into a fade from 255 to 255 and from 3 to 3.
\<close>

lemma lerp_value_examples:
  "lerp_value 0 1 (fade_factor demo_FADE_DURATION_MS 2000) = 11184811 / 16777216"
  "lerp_value 255 255 (fade_factor demo_FADE_DURATION_MS 7) = 547608330219 / 2147483648"
  "lerp_value 255 140 (fade_factor demo_FADE_DURATION_MS 7) = 547032088811 / 2147483648"
  "lerp_value 255 0 (fade_factor demo_FADE_DURATION_MS 7) = 546330577515 / 2147483648"
  "lerp_value 255 255 (fade_factor demo_FADE_DURATION_MS 1) = 4380866641951 / 17179869184"
  "lerp_value 3 3 (fade_factor demo_FADE_DURATION_MS 1) = 51539607551 / 17179869184"
proof -
  note e = demo_elapsed_examples
  note u = u8_to_fp_examples
  show "lerp_value 0 1 (fade_factor demo_FADE_DURATION_MS 2000) = 11184811 / 16777216"
    unfolding lerp_value_at [OF e(1) e(4) fade_factor_example product_examples(1)] u by simp
  show "lerp_value 255 255 (fade_factor demo_FADE_DURATION_MS 7) = 547608330219 / 2147483648"
    unfolding lerp_value_at [OF e(1) e(3) fade_factor_7 product_examples(2)] u by simp
  show "lerp_value 255 140 (fade_factor demo_FADE_DURATION_MS 7) = 547032088811 / 2147483648"
    unfolding lerp_value_at [OF e(1) e(3) fade_factor_7 product_examples(3)] u by simp
  show "lerp_value 255 0 (fade_factor demo_FADE_DURATION_MS 7) = 546330577515 / 2147483648"
    unfolding lerp_value_at [OF e(1) e(3) fade_factor_7 product_examples(4)] u by simp
  show "lerp_value 255 255 (fade_factor demo_FADE_DURATION_MS 1) = 4380866641951 / 17179869184"
    unfolding lerp_value_at [OF e(1) e(2) fade_factor_1 product_examples(5)] u by simp
  show "lerp_value 3 3 (fade_factor demo_FADE_DURATION_MS 1) = 51539607551 / 17179869184"
    unfolding lerp_value_at [OF e(1) e(2) fade_factor_1 product_examples(6)] u by simp
qed

lemma lerp_channel_examples:
  "lerp_channel 0 1 (fade_factor demo_FADE_DURATION_MS 2000) = Some 0"
  "lerp_channel 255 255 (fade_factor demo_FADE_DURATION_MS 7) = Some 254"
  "lerp_channel 255 140 (fade_factor demo_FADE_DURATION_MS 7) = Some 254"
  "lerp_channel 255 0 (fade_factor demo_FADE_DURATION_MS 7) = Some 254"
  "lerp_channel 255 255 (fade_factor demo_FADE_DURATION_MS 1) = Some 255"
  "lerp_channel 3 3 (fade_factor demo_FADE_DURATION_MS 1) = Some 2"
proof -
  note e = demo_elapsed_examples
  have fl: "\<lfloor>11184811 / 16777216 :: rat\<rfloor> = 0"
    "\<lfloor>547608330219 / 2147483648 :: rat\<rfloor> = 254"
    "\<lfloor>547032088811 / 2147483648 :: rat\<rfloor> = 254"
    "\<lfloor>546330577515 / 2147483648 :: rat\<rfloor> = 254"
    "\<lfloor>4380866641951 / 17179869184 :: rat\<rfloor> = 255"
    "\<lfloor>51539607551 / 17179869184 :: rat\<rfloor> = 2"
    by (simp_all add: floor_eq_iff)
  show "lerp_channel 0 1 (fade_factor demo_FADE_DURATION_MS 2000) = Some 0"
    using lerp_channel_in_progress(6) [OF e(1) e(4), of 0 1] by (simp add: lerp_value_examples fl)
  show "lerp_channel 255 255 (fade_factor demo_FADE_DURATION_MS 7) = Some 254"
    using lerp_channel_in_progress(6) [OF e(1) e(3), of 255 255]
    by (simp add: lerp_value_examples fl)
  show "lerp_channel 255 140 (fade_factor demo_FADE_DURATION_MS 7) = Some 254"
    using lerp_channel_in_progress(6) [OF e(1) e(3), of 255 140]
    by (simp add: lerp_value_examples fl)
  show "lerp_channel 255 0 (fade_factor demo_FADE_DURATION_MS 7) = Some 254"
    using lerp_channel_in_progress(6) [OF e(1) e(3), of 255 0]
    by (simp add: lerp_value_examples fl)
  show "lerp_channel 255 255 (fade_factor demo_FADE_DURATION_MS 1) = Some 255"
    using lerp_channel_in_progress(6) [OF e(1) e(2), of 255 255]
    by (simp add: lerp_value_examples fl)
  show "lerp_channel 3 3 (fade_factor demo_FADE_DURATION_MS 1) = Some 2"
    using lerp_channel_in_progress(6) [OF e(1) e(2), of 3 3]
    by (simp add: lerp_value_examples fl)
qed

lemma night_fade_example_fields:
  "fadeStartTime night_fade_example = 20000"
  "startColor night_fade_example = \<lparr>r = 255, g = 255, b = 255\<rparr>"
  "endColor night_fade_example = \<lparr>r = 255, g = 140, b = 0\<rparr>"
  "currentMode night_fade_example = ''NIGHT''"
  by (simp_all add: night_fade_example_def afternoon_example_def demo_loop_mode_def Let_def
      HOLD_MODE_def setDemoMode_def demo_setupFade_def demo_COLOR_AFTERNOON_def
      demo_COLOR_NIGHT_def)

text \<open>
  2.1 seconds into a fade from 0 to 10 of the demo sketch the factor is rounded up from
  0.7, the single-precision product is rounded to exactly 7, and the channel stored is 7.
\<close>

lemma factor_2100_3000: "fl32 (7 / 10) = 11744051 / 16777216"
  by code_simp

lemma product_2100: "fl32 (u8_to_fp 10 * (11744051 / 16777216)) = 7"
proof -
  have "u8_to_fp 10 = 10" by (simp add: u8_to_fp_def)
  moreover have "fl32 (10 * (11744051 / 16777216)) = 7" by code_simp
  ultimately show ?thesis by simp
qed

lemma lerp_channel_2100:
  "fade_factor demo_FADE_DURATION_MS 2100 = 11744051 / 16777216"
  "lerp_value 0 10 (fade_factor demo_FADE_DURATION_MS 2100) = 7"
  "lerp_channel 0 10 (fade_factor demo_FADE_DURATION_MS 2100) = Some 7"
proof -
  have e: "(2100 :: 32 word) < demo_FADE_DURATION_MS" by (simp add: demo_FADE_DURATION_MS_def)
  show f: "fade_factor demo_FADE_DURATION_MS 2100 = 11744051 / 16777216"
    using fade_factor_demo [of 2100] by (simp add: factor_2100_3000)
  show v: "lerp_value 0 10 (fade_factor demo_FADE_DURATION_MS 2100) = 7"
    unfolding lerp_value_at [OF demo_elapsed_examples(1) e f product_2100] u8_to_fp_examples
    by simp
  show "lerp_channel 0 10 (fade_factor demo_FADE_DURATION_MS 2100) = Some 7"
    using lerp_channel_in_progress(6) [OF demo_elapsed_examples(1) e, of 0 10] by (simp add: v)
qed

subsection \<open>The channels stored\<close>

text \<open>
  Claim C1, as amended. While a fade is in progress (elapsed time below \<open>FADE_DURATION_MS\<close>,
  in either sketch) \<open>fade\<close> succeeds and sets each channel of \<open>currentColor\<close>, independently
  of the other two, to the integer part of the value \<open>v\<close> that the floating-point
  expression \<open>start * (1.0 - factor) + end * factor\<close> has for that channel: the value is
  truncated, not rounded to the nearest integer. \<open>v\<close> is within \<open>1 / 2 ^ 16\<close> of the exact
  \<open>x = start * (1 - q) + end * q\<close>, where \<open>q\<close> is the exact quotient \<open>elapsed / duration\<close>; so
  the channel stored is above \<open>x - 1 - 1 / 2 ^ 16\<close> and at most \<open>x + 1 / 2 ^ 16\<close>: it is the
  integer part of \<open>x\<close> unless \<open>x\<close> is within \<open>1 / 2 ^ 16\<close> of an integer \<open>n\<close>, where it is
  \<open>n - 1\<close> or \<open>n\<close>.
\<close>

theorem fade_in_progress:
  assumes "duration = live_FADE_DURATION_MS \<or> duration = demo_FADE_DURATION_MS"
    and "now - fadeStartTime s < duration"
  shows "\<exists>cc. fade duration now s = Some (s\<lparr>currentColor := cc\<rparr>)
    \<and> uint (r cc) = \<lfloor>lerp_value (r (startColor s)) (r (endColor s))
                        (fade_factor duration (now - fadeStartTime s))\<rfloor>
    \<and> uint (g cc) = \<lfloor>lerp_value (g (startColor s)) (g (endColor s))
                        (fade_factor duration (now - fadeStartTime s))\<rfloor>
    \<and> uint (b cc) = \<lfloor>lerp_value (b (startColor s)) (b (endColor s))
                        (fade_factor duration (now - fadeStartTime s))\<rfloor>
    \<and> \<bar>lerp_value (r (startColor s)) (r (endColor s)) (fade_factor duration (now - fadeStartTime s))
         - lerp_exact (r (startColor s)) (r (endColor s))
             (of_nat (unat (now - fadeStartTime s)) / of_nat (unat duration))\<bar> \<le> 1 / 2 ^ 16
    \<and> \<bar>lerp_value (g (startColor s)) (g (endColor s)) (fade_factor duration (now - fadeStartTime s))
         - lerp_exact (g (startColor s)) (g (endColor s))
             (of_nat (unat (now - fadeStartTime s)) / of_nat (unat duration))\<bar> \<le> 1 / 2 ^ 16
    \<and> \<bar>lerp_value (b (startColor s)) (b (endColor s)) (fade_factor duration (now - fadeStartTime s))
         - lerp_exact (b (startColor s)) (b (endColor s))
             (of_nat (unat (now - fadeStartTime s)) / of_nat (unat duration))\<bar> \<le> 1 / 2 ^ 16"
proof -
  from fade_in_progress_result [OF assms] obtain cc where
    "fade duration now s = Some (s\<lparr>currentColor := cc\<rparr>)"
    "uint (r cc) = \<lfloor>lerp_value (r (startColor s)) (r (endColor s))
                        (fade_factor duration (now - fadeStartTime s))\<rfloor>"
    "uint (g cc) = \<lfloor>lerp_value (g (startColor s)) (g (endColor s))
                        (fade_factor duration (now - fadeStartTime s))\<rfloor>"
    "uint (b cc) = \<lfloor>lerp_value (b (startColor s)) (b (endColor s))
                        (fade_factor duration (now - fadeStartTime s))\<rfloor>"
    by blast
  then show ?thesis
    by (intro exI [of _ cc] conjI lerp_channel_in_progress(3) [OF assms])
qed

theorem fade_in_progress_witness:
  "(demo_FADE_DURATION_MS = live_FADE_DURATION_MS \<or> demo_FADE_DURATION_MS = demo_FADE_DURATION_MS)
   \<and> 2000 - fadeStartTime fade_example < demo_FADE_DURATION_MS
   \<and> (\<exists>cc. fade demo_FADE_DURATION_MS 2000 fade_example = Some (fade_example\<lparr>currentColor := cc\<rparr>)
        \<and> uint (r cc) = 0 \<and> uint (g cc) = 0 \<and> uint (b cc) = 0)"
proof -
  have sel: "fadeStartTime fade_example = 0"
    "r (startColor fade_example) = 0" "r (endColor fade_example) = 1"
    "g (startColor fade_example) = 0" "g (endColor fade_example) = 1"
    "b (startColor fade_example) = 0" "b (endColor fade_example) = 1"
    by (simp_all add: fade_example_def)
  have fl: "\<lfloor>11184811 / 16777216 :: rat\<rfloor> = 0" by (simp add: floor_eq_iff)
  from fade_example_elapsed have h1:
    "demo_FADE_DURATION_MS = live_FADE_DURATION_MS \<or> demo_FADE_DURATION_MS = demo_FADE_DURATION_MS"
    and h2: "2000 - fadeStartTime fade_example < demo_FADE_DURATION_MS" by simp_all
  from fade_in_progress [OF h1 h2]
  have "\<exists>cc. fade demo_FADE_DURATION_MS 2000 fade_example = Some (fade_example\<lparr>currentColor := cc\<rparr>)
        \<and> uint (r cc) = 0 \<and> uint (g cc) = 0 \<and> uint (b cc) = 0"
    unfolding sel diff_zero lerp_value_examples fl by blast
  with h1 h2 show ?thesis by simp
qed

text \<open>
  The claim as stated fails twice. Two seconds into the three-second fade of the demo
  sketch from black to \<open>(1, 1, 1)\<close> the interpolated value is about 0.67; \<open>fade\<close> stores 0
  in every channel, while rounding to the nearest integer gives 1. And seven
  milliseconds into the fade of the demo sketch from its afternoon colour
  \<open>(255, 255, 255)\<close> to its night colour \<open>(255, 140, 0)\<close> the red channel, whose exact
  interpolated value is 255, is stored as 254: the single-precision product
  \<open>255 * factor\<close> is rounded down, the sum falls just below 255 and is truncated.
\<close>

theorem fade_rounds_counterexample:
  "demo_fade 2000 fade_example = Some (fade_example\<lparr>currentColor := \<lparr>r = 0, g = 0, b = 0\<rparr>\<rparr>)
   \<and> spec_round_channel (r (startColor fade_example)) (r (endColor fade_example))
        (2000 - fadeStartTime fade_example) demo_FADE_DURATION_MS = 1
   \<and> demo_fade 20007 night_fade_example
        = Some (night_fade_example\<lparr>currentColor := \<lparr>r = 254, g = 254, b = 254\<rparr>\<rparr>)
   \<and> spec_round_channel (r (startColor night_fade_example)) (r (endColor night_fade_example))
        (20007 - fadeStartTime night_fade_example) demo_FADE_DURATION_MS = 255"
proof -
  note e = demo_elapsed_examples
  have "demo_fade 2000 fade_example = Some (fade_example\<lparr>currentColor := \<lparr>r = 0, g = 0, b = 0\<rparr>\<rparr>)"
    using e(4) unfolding demo_fade_def fade_def
    by (simp add: fade_example_def lerp_channel_examples)
  moreover have "spec_round_channel (r (startColor fade_example)) (r (endColor fade_example))
        (2000 - fadeStartTime fade_example) demo_FADE_DURATION_MS = 1"
    by (simp add: spec_round_channel_def fade_example_def demo_FADE_DURATION_MS_def
        lerp_exact_def u8_to_fp_def round_def floor_eq_iff)
  moreover have "demo_fade 20007 night_fade_example
        = Some (night_fade_example\<lparr>currentColor := \<lparr>r = 254, g = 254, b = 254\<rparr>\<rparr>)"
    using e(3) unfolding demo_fade_def fade_def
    by (simp add: night_fade_example_fields lerp_channel_examples)
  moreover have "spec_round_channel (r (startColor night_fade_example)) (r (endColor night_fade_example))
        (20007 - fadeStartTime night_fade_example) demo_FADE_DURATION_MS = 255"
    by (simp add: spec_round_channel_def night_fade_example_fields demo_FADE_DURATION_MS_def
        lerp_exact_def u8_to_fp_def round_def floor_eq_iff)
  ultimately show ?thesis by simp
qed

subsection \<open>The cast\<close>

text \<open>
  Claim C10, as amended. The narrowing cast in \<open>fade\<close> never wraps. For every start and end
  channel and every factor in \<open>[0, 1]\<close> the exact value \<open>start * (1 - factor) + end * factor\<close>
  lies between the smaller and the larger of the two channel values, hence in \<open>[0, 255]\<close>,
  and converting it to an 8-bit channel is defined and yields its integer part. The
  \<^verbatim>\<open>double\<close> that \<open>fade\<close> really casts, for every elapsed time below \<open>FADE_DURATION_MS\<close> in
  either sketch, is within \<open>1 / 2 ^ 17\<close> of that exact value (its factor is in \<open>[0, 1]\<close>): it
  can leave the interval of the two channel values by that much, but it is at least 0 and
  below 256, so the cast is defined, drops less than 1, and the channel stored is at
  least the smaller channel value minus 1 and at most the larger one.
\<close>

theorem fade_cast_in_range:
  assumes "duration = live_FADE_DURATION_MS \<or> duration = demo_FADE_DURATION_MS"
    and "timeElapsed < duration"
  shows "(0 \<le> f \<and> f \<le> 1 \<longrightarrow>
            min (u8_to_fp sc) (u8_to_fp ec) \<le> lerp_exact sc ec f
          \<and> lerp_exact sc ec f \<le> max (u8_to_fp sc) (u8_to_fp ec)
          \<and> 0 \<le> lerp_exact sc ec f \<and> lerp_exact sc ec f \<le> 255
          \<and> cast_u8 (lerp_exact sc ec f) = Some (word_of_int \<lfloor>lerp_exact sc ec f\<rfloor>)
          \<and> uint (word_of_int \<lfloor>lerp_exact sc ec f\<rfloor> :: 8 word) = \<lfloor>lerp_exact sc ec f\<rfloor>)
    \<and> 0 \<le> fade_factor duration timeElapsed \<and> fade_factor duration timeElapsed \<le> 1
    \<and> \<bar>lerp_value sc ec (fade_factor duration timeElapsed)
         - lerp_exact sc ec (fade_factor duration timeElapsed)\<bar> \<le> 1 / 2 ^ 17
    \<and> min (u8_to_fp sc) (u8_to_fp ec) - 1 / 2 ^ 17
         \<le> lerp_value sc ec (fade_factor duration timeElapsed)
    \<and> lerp_value sc ec (fade_factor duration timeElapsed)
         \<le> max (u8_to_fp sc) (u8_to_fp ec) + 1 / 2 ^ 17
    \<and> 0 \<le> lerp_value sc ec (fade_factor duration timeElapsed)
    \<and> lerp_value sc ec (fade_factor duration timeElapsed) < 256
    \<and> (\<exists>c. lerp_channel sc ec (fade_factor duration timeElapsed) = Some c
          \<and> of_int (uint c) \<le> lerp_value sc ec (fade_factor duration timeElapsed)
          \<and> lerp_value sc ec (fade_factor duration timeElapsed) < of_int (uint c) + 1
          \<and> min (uint sc) (uint ec) - 1 \<le> uint c \<and> uint c \<le> max (uint sc) (uint ec))"
proof -
  have ideal: "min (u8_to_fp sc) (u8_to_fp ec) \<le> lerp_exact sc ec f
          \<and> lerp_exact sc ec f \<le> max (u8_to_fp sc) (u8_to_fp ec)
          \<and> 0 \<le> lerp_exact sc ec f \<and> lerp_exact sc ec f \<le> 255
          \<and> cast_u8 (lerp_exact sc ec f) = Some (word_of_int \<lfloor>lerp_exact sc ec f\<rfloor>)
          \<and> uint (word_of_int \<lfloor>lerp_exact sc ec f\<rfloor> :: 8 word) = \<lfloor>lerp_exact sc ec f\<rfloor>"
    if f: "0 \<le> f" "f \<le> 1"
    using lerp_exact_between [OF f, of sc ec] lerp_exact_range [OF f, of sc ec]
      cast_u8_in_range [OF lerp_exact_range [OF f, of sc ec]]
      floor_u8(3) [OF lerp_exact_range [OF f, of sc ec]]
    by simp
  note fr = fade_factor_range [OF fade_duration_small [OF assms(1)] assms(2)]
  note ch = lerp_channel_in_progress [OF assms, of sc ec]
  note cr = fade_cast_result [OF assms, of sc ec]
  from ideal fr(1,2) ch(2,4,5) cr show ?thesis by blast
qed

theorem fade_cast_in_range_witness:
  "(live_FADE_DURATION_MS = live_FADE_DURATION_MS \<or> live_FADE_DURATION_MS = demo_FADE_DURATION_MS)
   \<and> (900000 :: 32 word) < live_FADE_DURATION_MS
   \<and> (0 :: rat) \<le> 1 / 2 \<and> (1 / 2 :: rat) \<le> 1
   \<and> lerp_exact 255 0 (1 / 2) \<le> 255
   \<and> cast_u8 (lerp_exact 255 0 (1 / 2)) = Some 127
   \<and> 0 \<le> lerp_value 255 0 (fade_factor live_FADE_DURATION_MS 900000)
   \<and> lerp_value 255 0 (fade_factor live_FADE_DURATION_MS 900000) < 256
   \<and> (\<exists>c. lerp_channel 255 0 (fade_factor live_FADE_DURATION_MS 900000) = Some c
         \<and> uint c \<le> 255)"
proof -
  have h1: "live_FADE_DURATION_MS = live_FADE_DURATION_MS \<or> live_FADE_DURATION_MS = demo_FADE_DURATION_MS"
    by simp
  have h2: "(900000 :: 32 word) < live_FADE_DURATION_MS" by (simp add: live_FADE_DURATION_MS_def)
  have v: "lerp_exact 255 0 (1 / 2) = 255 / 2" by (simp add: lerp_exact_def u8_to_fp_def)
  have fl: "\<lfloor>255 / 2 :: rat\<rfloor> = 127" by (simp add: floor_eq_iff)
  from fade_cast_in_range [OF h1 h2, of "1 / 2" 255 0]
  have "lerp_exact 255 0 (1 / 2) \<le> 255
   \<and> cast_u8 (lerp_exact 255 0 (1 / 2)) = Some 127
   \<and> 0 \<le> lerp_value 255 0 (fade_factor live_FADE_DURATION_MS 900000)
   \<and> lerp_value 255 0 (fade_factor live_FADE_DURATION_MS 900000) < 256
   \<and> (\<exists>c. lerp_channel 255 0 (fade_factor live_FADE_DURATION_MS 900000) = Some c
         \<and> uint c \<le> 255)"
    unfolding v fl by auto
  with h1 h2 show ?thesis by simp
qed

text \<open>
  The claim as stated fails for the value that is cast. One millisecond into a fade of the
  demo sketch from 255 to 255 the \<^verbatim>\<open>double\<close> is \<open>255 + 31 / 2 ^ 34\<close>, above the larger channel
  value and above 255 (the channel stored is still 255); one millisecond into a fade from
  3 to 3 it is just below 3 and the channel stored is 2, below the smaller channel
  value.
\<close>

theorem fade_cast_counterexample:
  "max (u8_to_fp 255) (u8_to_fp 255) < lerp_value 255 255 (fade_factor demo_FADE_DURATION_MS 1)
   \<and> 255 < lerp_value 255 255 (fade_factor demo_FADE_DURATION_MS 1)
   \<and> lerp_channel 255 255 (fade_factor demo_FADE_DURATION_MS 1) = Some 255
   \<and> lerp_value 3 3 (fade_factor demo_FADE_DURATION_MS 1) < min (u8_to_fp 3) (u8_to_fp 3)
   \<and> lerp_channel 3 3 (fade_factor demo_FADE_DURATION_MS 1) = Some 2"
  by (simp add: lerp_value_examples lerp_channel_examples u8_to_fp_examples)

section \<open>Target brightness from the distance\<close>

lemma wrap_long_small: "- (2 ^ 31) \<le> x \<Longrightarrow> x < 2 ^ 31 \<Longrightarrow> wrap_long x = x"
  unfolding wrap_long_def by (simp add: sint_sbintrunc' signed_take_bit_int_eq_self)

text \<open>A hand at 34 cm gives the target 8, one at 2 cm the target 255.\<close>

lemma arduino_map_examples:
  "arduino_map 34 DIST_MIN DIST_MAX 255 0 = 8"
  "arduino_map 2 DIST_MIN DIST_MAX 255 0 = 255"
  by (simp_all add: arduino_map_def DIST_MIN_def DIST_MAX_def tdiv_def wrap_long_small)

text \<open>
  Far outside the range of the sensor the product in \<open>map\<close> no longer fits 32 bits and
  wraps: a distance of -9999999 gives a negative value, which \<open>constrain\<close> turns into 0.
\<close>

lemma arduino_map_wraps:
  "arduino_map (- 9999999) DIST_MIN DIST_MAX 255 0 = - 52877534"
  "constrain (arduino_map (- 9999999) DIST_MIN DIST_MAX 255 0) 0 255 = 0"
proof -
  have w: "wrap_long 2550000255 = - 1744967041"
    unfolding wrap_long_def by (simp add: sint_uint signed_take_bit_eq_take_bit_shift)
  show a: "arduino_map (- 9999999) DIST_MIN DIST_MAX 255 0 = - 52877534"
    by (simp add: arduino_map_def DIST_MIN_def DIST_MAX_def wrap_long_small w tdiv_def)
  show "constrain (arduino_map (- 9999999) DIST_MIN DIST_MAX 255 0) 0 255 = 0"
    by (simp add: a constrain_def)
qed

section \<open>Brightness smoothing never overshoots\<close>

lemma brightness_step_nonneg: "0 \<le> brightness_step dt"
proof -
  have "0 \<le> fl64 (255 / BRIGHTNESS_FADE_DURATION)"
    by (rule fl64_nonneg) (simp add: BRIGHTNESS_FADE_DURATION_def)
  moreover have "0 \<le> u32_to_double dt"
    unfolding u32_to_double_def by (rule fl64_nonneg) (rule of_nat_0_le_iff)
  ultimately have "0 \<le> fl64 (255 / BRIGHTNESS_FADE_DURATION) * u32_to_double dt"
    by (rule mult_nonneg_nonneg)
  then show ?thesis unfolding brightness_step_def by (intro fl32_nonneg fl64_nonneg)
qed

text \<open>The new value of \<open>currentBrightnessPrecise\<close>, as the two branches compute it.\<close>

lemma smooth_value_cases:
  fixes cur target step :: rat
  assumes "is_float32 cur" "0 \<le> step" "fl32 target = target"
  defines "cur' \<equiv>
            (if cur < target then
               (let c = fl32 (cur + step) in if target < c then target else c)
             else if target < cur then
               (let c = fl32 (cur - step) in if c < target then target else c)
             else cur)"
  shows "cur \<le> target \<Longrightarrow> cur \<le> cur' \<and> cur' \<le> target"
    and "target \<le> cur \<Longrightarrow> target \<le> cur' \<and> cur' \<le> cur"
    and "cur < target \<Longrightarrow> target \<le> cur + step \<Longrightarrow> cur' = target"
    and "target < cur \<Longrightarrow> cur - step \<le> target \<Longrightarrow> cur' = target"
    and "is_float32 cur'"
proof -
  have c: "fl32 cur = cur" using assms(1) by (simp add: is_float32_def)
  have up: "cur \<le> fl32 (cur + step)"
    using fl32_mono [of cur "cur + step"] assms(2) by (simp add: c)
  have down: "fl32 (cur - step) \<le> cur"
    using fl32_mono [of "cur - step" cur] assms(2) by (simp add: c)
  show "cur \<le> target \<Longrightarrow> cur \<le> cur' \<and> cur' \<le> target"
    using up by (auto simp: cur'_def Let_def)
  show "target \<le> cur \<Longrightarrow> target \<le> cur' \<and> cur' \<le> cur"
    using down by (auto simp: cur'_def Let_def)
  show "cur' = target" if "cur < target" "target \<le> cur + step"
  proof -
    have "target \<le> fl32 (cur + step)"
      using fl32_mono [OF that(2)] by (simp add: assms(3))
    then show ?thesis using that(1) by (auto simp: cur'_def Let_def)
  qed
  show "cur' = target" if "target < cur" "cur - step \<le> target"
  proof -
    have "fl32 (cur - step) \<le> target"
      using fl32_mono [OF that(2)] by (simp add: assms(3))
    then show ?thesis using that(1) by (auto simp: cur'_def Let_def)
  qed
  show "is_float32 cur'"
    using assms(1,3) is_float32_fl32 by (auto simp: cur'_def Let_def is_float32_def)
qed

lemma brightness_step_5000: "brightness_step 5000 = 1275 / 2"
proof -
  have a: "fl64 (255 / 2000) = 2296835809958953 / 18014398509481984" by code_simp
  have b: "u32_to_double 5000 = 5000"
    using fl64_of_nat [of 5000] by (simp add: u32_to_double_def)
  have c: "fl64 (2296835809958953 / 18014398509481984 * 5000) = 1275 / 2" by code_simp
  have d: "fl32 (1275 / 2) = 1275 / 2" by code_simp
  show ?thesis
    by (simp only: brightness_step_def BRIGHTNESS_FADE_DURATION_def a b c d)
qed

lemma updateBrightnessSmoothly_result:
  assumes "is_float32 (currentBrightnessPrecise s)"
    and "0 \<le> currentBrightnessPrecise s" and "currentBrightnessPrecise s \<le> 255"
  shows "\<exists>s'. updateBrightnessSmoothly now s = Some s'
    \<and> \<bar>currentBrightnessPrecise s' - u8_to_fp (targetBrightness s)\<bar>
        \<le> \<bar>currentBrightnessPrecise s - u8_to_fp (targetBrightness s)\<bar>
    \<and> (currentBrightnessPrecise s \<le> u8_to_fp (targetBrightness s)
        \<longrightarrow> currentBrightnessPrecise s \<le> currentBrightnessPrecise s'
          \<and> currentBrightnessPrecise s' \<le> u8_to_fp (targetBrightness s))
    \<and> (u8_to_fp (targetBrightness s) \<le> currentBrightnessPrecise s
        \<longrightarrow> u8_to_fp (targetBrightness s) \<le> currentBrightnessPrecise s'
          \<and> currentBrightnessPrecise s' \<le> currentBrightnessPrecise s)
    \<and> (currentBrightnessPrecise s < u8_to_fp (targetBrightness s)
        \<and> u8_to_fp (targetBrightness s)
            \<le> currentBrightnessPrecise s + brightness_step (now - lastBrightUpdate s)
        \<longrightarrow> currentBrightnessPrecise s' = u8_to_fp (targetBrightness s))
    \<and> (u8_to_fp (targetBrightness s) < currentBrightnessPrecise s
        \<and> currentBrightnessPrecise s - brightness_step (now - lastBrightUpdate s)
            \<le> u8_to_fp (targetBrightness s)
        \<longrightarrow> currentBrightnessPrecise s' = u8_to_fp (targetBrightness s))
    \<and> (currentBrightnessPrecise s = u8_to_fp (targetBrightness s)
        \<longrightarrow> currentBrightnessPrecise s' = u8_to_fp (targetBrightness s))
    \<and> targetBrightness s' = targetBrightness s
    \<and> is_float32 (currentBrightnessPrecise s')
    \<and> 0 \<le> currentBrightnessPrecise s' \<and> currentBrightnessPrecise s' \<le> 255
    \<and> uint (globalBrightness s') = \<lfloor>currentBrightnessPrecise s'\<rfloor>"
proof -
  define cur where "cur = currentBrightnessPrecise s"
  define target where "target = u8_to_fp (targetBrightness s)"
  define step where "step = brightness_step (now - lastBrightUpdate s)"
  define cur' where "cur' =
            (if cur < target then
               (if target < fl32 (cur + step) then target else fl32 (cur + step))
             else if target < cur then
               (if fl32 (cur - step) < target then target else fl32 (cur - step))
             else cur)"
  have fc: "is_float32 cur" using assms(1) by (simp add: cur_def)
  have st: "0 \<le> step" unfolding step_def by (rule brightness_step_nonneg)
  have ft: "fl32 target = target" unfolding target_def by (rule fl32_u8)
  note sv = smooth_value_cases [OF fc st ft, unfolded Let_def, folded cur'_def]
  have tr: "0 \<le> target" "target \<le> 255"
    unfolding target_def by (rule u8_to_fp_range)+
  have cr: "0 \<le> cur" "cur \<le> 255" using assms(2,3) by (simp_all add: cur_def)
  have rng: "0 \<le> cur'" "cur' \<le> 255"
    using sv(1,2) tr cr by linarith+
  have cast: "cast_u8 cur' = Some (word_of_int \<lfloor>cur'\<rfloor>)"
    using rng by (rule cast_u8_in_range)
  have gb: "uint (word_of_int \<lfloor>cur'\<rfloor> :: 8 word) = \<lfloor>cur'\<rfloor>"
    using rng by (rule floor_u8(3))
  define s' where "s' = s\<lparr>lastBrightUpdate := now, currentBrightnessPrecise := cur',
      globalBrightness := word_of_int \<lfloor>cur'\<rfloor>\<rparr>"
  have run: "updateBrightnessSmoothly now s = Some s'"
    unfolding updateBrightnessSmoothly_def Let_def
      cur_def [symmetric] target_def [symmetric] step_def [symmetric] cur'_def [symmetric]
    by (simp add: cast s'_def)
  have sel: "currentBrightnessPrecise s' = cur'" "targetBrightness s' = targetBrightness s"
    "globalBrightness s' = word_of_int \<lfloor>cur'\<rfloor>"
    by (simp_all add: s'_def)
  have dist: "\<bar>cur' - target\<bar> \<le> \<bar>cur - target\<bar>"
    using sv(1,2) by linarith
  have eq: "cur = target \<longrightarrow> cur' = target"
    using sv(1) by auto
  show ?thesis
    unfolding cur_def [symmetric] target_def [symmetric] step_def [symmetric]
    using run dist sv eq rng gb by (intro exI [of _ s']) (simp add: sel)
qed

lemma updateBrightnessSmoothly_frame:
  assumes "updateBrightnessSmoothly now s = Some s'"
  shows "strip s' = strip s" and "currentColor s' = currentColor s"
    and "startColor s' = startColor s" and "endColor s' = endColor s"
    and "fadeStartTime s' = fadeStartTime s"
  using assms
  by (auto simp: updateBrightnessSmoothly_def Let_def bind_eq_Some_conv)

text \<open>
  Claim C4. \<open>updateBrightnessSmoothly\<close> never overshoots. Whatever time has elapsed since
  the last update, from a state whose \<open>currentBrightnessPrecise\<close> is a \<^verbatim>\<open>float\<close> in
  \<open>[0, 255]\<close> the update succeeds, the new value lies between the old value and
  \<open>targetBrightness\<close> (so its distance to the target has not grown), and it is exactly
  the target whenever the old value was the target or the step reaches or crosses it.
  The target itself is untouched, the new value is again a \<^verbatim>\<open>float\<close> in \<open>[0, 255]\<close>, and
  \<open>globalBrightness\<close> is its integer part.
\<close>

theorem updateBrightnessSmoothly_no_overshoot:
  assumes "is_float32 (currentBrightnessPrecise s)"
    and "0 \<le> currentBrightnessPrecise s" and "currentBrightnessPrecise s \<le> 255"
  shows "\<exists>s'. updateBrightnessSmoothly now s = Some s'
    \<and> \<bar>currentBrightnessPrecise s' - u8_to_fp (targetBrightness s)\<bar>
        \<le> \<bar>currentBrightnessPrecise s - u8_to_fp (targetBrightness s)\<bar>
    \<and> (currentBrightnessPrecise s \<le> u8_to_fp (targetBrightness s)
        \<longrightarrow> currentBrightnessPrecise s \<le> currentBrightnessPrecise s'
          \<and> currentBrightnessPrecise s' \<le> u8_to_fp (targetBrightness s))
    \<and> (u8_to_fp (targetBrightness s) \<le> currentBrightnessPrecise s
        \<longrightarrow> u8_to_fp (targetBrightness s) \<le> currentBrightnessPrecise s'
          \<and> currentBrightnessPrecise s' \<le> currentBrightnessPrecise s)
    \<and> (currentBrightnessPrecise s < u8_to_fp (targetBrightness s)
        \<and> u8_to_fp (targetBrightness s)
            \<le> currentBrightnessPrecise s + brightness_step (now - lastBrightUpdate s)
        \<longrightarrow> currentBrightnessPrecise s' = u8_to_fp (targetBrightness s))
    \<and> (u8_to_fp (targetBrightness s) < currentBrightnessPrecise s
        \<and> currentBrightnessPrecise s - brightness_step (now - lastBrightUpdate s)
            \<le> u8_to_fp (targetBrightness s)
        \<longrightarrow> currentBrightnessPrecise s' = u8_to_fp (targetBrightness s))
    \<and> (currentBrightnessPrecise s = u8_to_fp (targetBrightness s)
        \<longrightarrow> currentBrightnessPrecise s' = u8_to_fp (targetBrightness s))
    \<and> targetBrightness s' = targetBrightness s
    \<and> is_float32 (currentBrightnessPrecise s')
    \<and> 0 \<le> currentBrightnessPrecise s' \<and> currentBrightnessPrecise s' \<le> 255
    \<and> uint (globalBrightness s') = \<lfloor>currentBrightnessPrecise s'\<rfloor>"
  using assms by (rule updateBrightnessSmoothly_result)

theorem updateBrightnessSmoothly_no_overshoot_witness:
  "is_float32 (currentBrightnessPrecise dimming_example)
   \<and> 0 \<le> currentBrightnessPrecise dimming_example
   \<and> currentBrightnessPrecise dimming_example \<le> 255
   \<and> u8_to_fp (targetBrightness dimming_example) < currentBrightnessPrecise dimming_example
   \<and> currentBrightnessPrecise dimming_example
         - brightness_step (5000 - lastBrightUpdate dimming_example)
       \<le> u8_to_fp (targetBrightness dimming_example)
   \<and> (\<exists>s'. updateBrightnessSmoothly 5000 dimming_example = Some s'
         \<and> currentBrightnessPrecise s' = 8 \<and> uint (globalBrightness s') = 8)
   \<and> is_float32 (currentBrightnessPrecise brightening_example)
   \<and> 0 \<le> currentBrightnessPrecise brightening_example
   \<and> currentBrightnessPrecise brightening_example \<le> 255
   \<and> currentBrightnessPrecise brightening_example < u8_to_fp (targetBrightness brightening_example)
   \<and> u8_to_fp (targetBrightness brightening_example)
       \<le> currentBrightnessPrecise brightening_example
           + brightness_step (5000 - lastBrightUpdate brightening_example)
   \<and> (\<exists>s'. updateBrightnessSmoothly 5000 brightening_example = Some s'
         \<and> currentBrightnessPrecise s' = 255 \<and> uint (globalBrightness s') = 255)
   \<and> is_float32 (currentBrightnessPrecise demo_init)
   \<and> 0 \<le> currentBrightnessPrecise demo_init
   \<and> currentBrightnessPrecise demo_init \<le> 255
   \<and> currentBrightnessPrecise demo_init = u8_to_fp (targetBrightness demo_init)
   \<and> (\<exists>s'. updateBrightnessSmoothly 5000 demo_init = Some s'
         \<and> currentBrightnessPrecise s' = 255 \<and> uint (globalBrightness s') = 255)"
proof -
  have d: "currentBrightnessPrecise dimming_example = 255"
    "u8_to_fp (targetBrightness dimming_example) = 8"
    "5000 - lastBrightUpdate dimming_example = 5000"
    by (simp_all add: dimming_example_def demo_init_def u8_to_fp_def)
  have hd: "is_float32 (currentBrightnessPrecise dimming_example)"
    "0 \<le> currentBrightnessPrecise dimming_example"
    "currentBrightnessPrecise dimming_example \<le> 255"
    by (simp_all add: d is_float32_examples)
  have cd: "u8_to_fp (targetBrightness dimming_example) < currentBrightnessPrecise dimming_example"
    "currentBrightnessPrecise dimming_example
         - brightness_step (5000 - lastBrightUpdate dimming_example)
       \<le> u8_to_fp (targetBrightness dimming_example)"
    by (simp_all add: d brightness_step_5000)
  have rd: "\<exists>s'. updateBrightnessSmoothly 5000 dimming_example = Some s'
         \<and> currentBrightnessPrecise s' = 8 \<and> uint (globalBrightness s') = 8"
    using updateBrightnessSmoothly_no_overshoot [OF hd, of 5000]
    unfolding d brightness_step_5000 by (auto simp: floor_eq_iff)
  have u: "currentBrightnessPrecise brightening_example = 8"
    "u8_to_fp (targetBrightness brightening_example) = 255"
    "5000 - lastBrightUpdate brightening_example = 5000"
    by (simp_all add: brightening_example_def demo_init_def u8_to_fp_def)
  have hu: "is_float32 (currentBrightnessPrecise brightening_example)"
    "0 \<le> currentBrightnessPrecise brightening_example"
    "currentBrightnessPrecise brightening_example \<le> 255"
    by (simp_all add: u is_float32_examples)
  have cu: "currentBrightnessPrecise brightening_example < u8_to_fp (targetBrightness brightening_example)"
    "u8_to_fp (targetBrightness brightening_example)
       \<le> currentBrightnessPrecise brightening_example
           + brightness_step (5000 - lastBrightUpdate brightening_example)"
    by (simp_all add: u brightness_step_5000)
  have ru: "\<exists>s'. updateBrightnessSmoothly 5000 brightening_example = Some s'
         \<and> currentBrightnessPrecise s' = 255 \<and> uint (globalBrightness s') = 255"
    using updateBrightnessSmoothly_no_overshoot [OF hu, of 5000]
    unfolding u brightness_step_5000 by (auto simp: floor_eq_iff)
  have i: "currentBrightnessPrecise demo_init = 255"
    "u8_to_fp (targetBrightness demo_init) = 255"
    by (simp_all add: demo_init_def u8_to_fp_def)
  have hi: "is_float32 (currentBrightnessPrecise demo_init)"
    "0 \<le> currentBrightnessPrecise demo_init"
    "currentBrightnessPrecise demo_init \<le> 255"
    by (simp_all add: i is_float32_examples)
  have ri: "\<exists>s'. updateBrightnessSmoothly 5000 demo_init = Some s'
         \<and> currentBrightnessPrecise s' = 255 \<and> uint (globalBrightness s') = 255"
    using updateBrightnessSmoothly_no_overshoot [OF hi, of 5000]
    unfolding i by (auto simp: floor_eq_iff)
  show ?thesis using hd cd rd hu cu ru hi ri by (simp add: i)
qed

section \<open>What reaches the strip\<close>

lemma fill_strip_aux:
  "n \<le> length px \<Longrightarrow> fold (\<lambda>i. setPixelColor i c) [0..<n] px = replicate n c @ drop n px"
proof (induction n)
  case 0
  then show ?case by simp
next
  case (Suc n)
  then have n: "n < length px" by simp
  have "(replicate n c @ drop n px)[n := c] = replicate n c @ (drop n px)[0 := c]"
    by (simp add: list_update_append)
  also have "(drop n px)[0 := c] = c # drop (Suc n) px"
    using n by (metis Cons_nth_drop_Suc list_update_code(2))
  finally have "(replicate n c @ drop n px)[n := c] = replicate (Suc n) c @ drop (Suc n) px"
    by (simp add: replicate_append_same)
  then show ?case using Suc n by (simp add: setPixelColor_def)
qed

lemma fill_strip_replicate: "fill_strip c px = replicate (length px) c"
  by (simp add: fill_strip_def fill_strip_aux)


lemma brightness_scale_range:
  "0 \<le> brightness_scale w" "brightness_scale w \<le> 1"
proof -
  have q: "0 \<le> u8_to_fp w / 255" "u8_to_fp w / 255 \<le> 1"
    using u8_to_fp_range [of w] by simp_all
  show "0 \<le> brightness_scale w"
    unfolding brightness_scale_def using q(1) by (intro fl32_nonneg fl64_nonneg)
  have "fl64 (u8_to_fp w / 255) \<le> fl64 (of_nat 1)" using q(2) by (intro fl64_mono) simp
  also have "fl64 (of_nat 1) = 1" using fl64_of_nat [of 1] by simp
  finally have "fl32 (fl64 (u8_to_fp w / 255)) \<le> fl32 (of_nat 1)" by (intro fl32_mono) simp
  also have "fl32 (of_nat 1) = 1" using fl32_of_nat [of 1] by simp
  finally show "brightness_scale w \<le> 1" unfolding brightness_scale_def .
qed

lemma scaled_channel_range:
  assumes "0 \<le> scale" "scale \<le> 1"
  shows "0 \<le> scaled_channel c scale" "scaled_channel c scale \<le> 255"
proof -
  have "0 \<le> u8_to_fp c * scale" using u8_to_fp_range(1) assms(1) by (rule mult_nonneg_nonneg)
  then show "0 \<le> scaled_channel c scale" unfolding scaled_channel_def by (rule fl32_nonneg)
  have "u8_to_fp c * scale \<le> u8_to_fp c * 1"
    using assms(2) u8_to_fp_range(1) by (rule mult_left_mono)
  then have "fl32 (u8_to_fp c * scale) \<le> fl32 (u8_to_fp c)" by (intro fl32_mono) simp
  then show "scaled_channel c scale \<le> 255"
    unfolding scaled_channel_def using u8_to_fp_range(2) [of c] by (simp add: fl32_u8)
qed

lemma scaled_channel_cast:
  assumes "0 \<le> scale" "scale \<le> 1"
  shows "cast_u8 (scaled_channel c scale) = Some (word_of_int \<lfloor>scaled_channel c scale\<rfloor>)"
  using scaled_channel_range [OF assms] by (rule cast_u8_in_range)

text \<open>\<open>applyCurrentColor\<close> of the demo sketch always succeeds and fills the strip.\<close>

lemma demo_applyCurrentColor_result:
  "demo_applyCurrentColor s = Some (s\<lparr>strip := replicate (length (strip s))
     \<lparr>r = word_of_int \<lfloor>scaled_channel (r (currentColor s)) (brightness_scale (globalBrightness s))\<rfloor>,
      g = word_of_int \<lfloor>scaled_channel (g (currentColor s)) (brightness_scale (globalBrightness s))\<rfloor>,
      b = word_of_int \<lfloor>scaled_channel (b (currentColor s)) (brightness_scale (globalBrightness s))\<rfloor>\<rparr>\<rparr>)"
  unfolding demo_applyCurrentColor_def Let_def
  by (simp add: scaled_channel_cast [OF brightness_scale_range] fill_strip_replicate)










section \<open>One iteration of the demo loop succeeds\<close>

lemma demo_fade_result: "\<exists>cc. demo_fade now s = Some (s\<lparr>currentColor := cc\<rparr>)"
proof (cases "now - fadeStartTime s < demo_FADE_DURATION_MS")
  case True
  have "demo_FADE_DURATION_MS = live_FADE_DURATION_MS \<or> demo_FADE_DURATION_MS = demo_FADE_DURATION_MS"
    by simp
  from fade_in_progress_result [OF this True] show ?thesis
    unfolding demo_fade_def by blast
next
  case False
  then have "demo_FADE_DURATION_MS \<le> now - fadeStartTime s" by (simp add: not_less)
  then show ?thesis unfolding demo_fade_def by (intro exI) (rule fade_after_duration)
qed

lemma demo_loop_mode_brightness:
  "currentBrightnessPrecise (demo_loop_mode currentMillis now s) = currentBrightnessPrecise s"
  "targetBrightness (demo_loop_mode currentMillis now s) = targetBrightness s"
  by (simp_all add: demo_loop_mode_def Let_def setDemoMode_def demo_setupFade_def)

lemma demo_loop_sensor_brightness:
  "currentBrightnessPrecise (demo_loop_sensor d s) = currentBrightnessPrecise s"
  by (simp add: demo_loop_sensor_def Let_def)

lemma demo_loop_mode_strip: "strip (demo_loop_mode currentMillis now s) = strip s"
  by (simp add: demo_loop_mode_def Let_def setDemoMode_def demo_setupFade_def)

lemma demo_loop_sensor_strip: "strip (demo_loop_sensor d s) = strip s"
  by (simp add: demo_loop_sensor_def Let_def)

text \<open>
  One iteration of the demo loop succeeds from every state whose smoothed brightness is a
  \<^verbatim>\<open>float\<close> in \<open>[0, 255]\<close>, keeps that property, and leaves \<open>targetBrightness\<close> as the
  sensor part set it. At its end \<open>globalBrightness\<close> is the integer part of the smoothed
  brightness and every pixel holds the channels of \<open>currentColor\<close> scaled with it.
\<close>

lemma demo_loop_result:
  assumes "is_float32 (currentBrightnessPrecise s)"
    and "0 \<le> currentBrightnessPrecise s" and "currentBrightnessPrecise s \<le> 255"
  shows "\<exists>s'. demo_loop inp s = Some s'
    \<and> is_float32 (currentBrightnessPrecise s')
    \<and> 0 \<le> currentBrightnessPrecise s' \<and> currentBrightnessPrecise s' \<le> 255
    \<and> targetBrightness s' = targetBrightness
          (demo_loop_sensor (getDistance (echo_pulse inp))
            (demo_loop_mode (millis_loop inp) (millis_setupFade inp) s))
    \<and> uint (globalBrightness s') = \<lfloor>currentBrightnessPrecise s'\<rfloor>
    \<and> strip s' = replicate (length (strip s))
        \<lparr>r = word_of_int \<lfloor>scaled_channel (r (currentColor s')) (brightness_scale (globalBrightness s'))\<rfloor>,
         g = word_of_int \<lfloor>scaled_channel (g (currentColor s')) (brightness_scale (globalBrightness s'))\<rfloor>,
         b = word_of_int \<lfloor>scaled_channel (b (currentColor s')) (brightness_scale (globalBrightness s'))\<rfloor>\<rparr>"
proof -
  define s2 where "s2 = demo_loop_sensor (getDistance (echo_pulse inp))
            (demo_loop_mode (millis_loop inp) (millis_setupFade inp) s)"
  have c2: "currentBrightnessPrecise s2 = currentBrightnessPrecise s"
    by (simp add: s2_def demo_loop_sensor_brightness demo_loop_mode_brightness)
  have l2: "strip s2 = strip s"
    by (simp add: s2_def demo_loop_sensor_strip demo_loop_mode_strip)
  have inv2: "is_float32 (currentBrightnessPrecise s2)"
    "0 \<le> currentBrightnessPrecise s2" "currentBrightnessPrecise s2 \<le> 255"
    using assms by (simp_all add: c2)
  from updateBrightnessSmoothly_result [OF inv2, of "millis_bright inp"]
  obtain s3 where s3: "updateBrightnessSmoothly (millis_bright inp) s2 = Some s3"
    "targetBrightness s3 = targetBrightness s2" "is_float32 (currentBrightnessPrecise s3)"
    "0 \<le> currentBrightnessPrecise s3" "currentBrightnessPrecise s3 \<le> 255"
    "uint (globalBrightness s3) = \<lfloor>currentBrightnessPrecise s3\<rfloor>"
    by blast
  have l3: "strip s3 = strip s" using updateBrightnessSmoothly_frame(1) [OF s3(1)] l2 by simp
  from demo_fade_result [of "millis_fade inp" s3]
  obtain cc where s4: "demo_fade (millis_fade inp) s3 = Some (s3\<lparr>currentColor := cc\<rparr>)"
    by blast
  define s4 where "s4 = s3\<lparr>currentColor := cc\<rparr>"
  define s5 where "s5 = s4\<lparr>strip := replicate (length (strip s4))
     \<lparr>r = word_of_int \<lfloor>scaled_channel (r (currentColor s4)) (brightness_scale (globalBrightness s4))\<rfloor>,
      g = word_of_int \<lfloor>scaled_channel (g (currentColor s4)) (brightness_scale (globalBrightness s4))\<rfloor>,
      b = word_of_int \<lfloor>scaled_channel (b (currentColor s4)) (brightness_scale (globalBrightness s4))\<rfloor>\<rparr>\<rparr>"
  have s5: "demo_applyCurrentColor s4 = Some s5"
    unfolding s5_def by (rule demo_applyCurrentColor_result)
  have run: "demo_loop inp s = Some s5"
    unfolding demo_loop_def Let_def s2_def [symmetric]
    by (simp add: s3(1) s4 s4_def [symmetric] s5)
  have keep: "currentBrightnessPrecise s5 = currentBrightnessPrecise s3"
    "targetBrightness s5 = targetBrightness s3"
    "globalBrightness s5 = globalBrightness s3"
    "currentColor s5 = currentColor s4" "globalBrightness s4 = globalBrightness s3"
    by (simp_all add: s5_def s4_def)
  have st: "strip s5 = replicate (length (strip s))
     \<lparr>r = word_of_int \<lfloor>scaled_channel (r (currentColor s5)) (brightness_scale (globalBrightness s5))\<rfloor>,
      g = word_of_int \<lfloor>scaled_channel (g (currentColor s5)) (brightness_scale (globalBrightness s5))\<rfloor>,
      b = word_of_int \<lfloor>scaled_channel (b (currentColor s5)) (brightness_scale (globalBrightness s5))\<rfloor>\<rparr>"
    unfolding keep(3,4) by (simp add: s5_def keep(5)) (simp add: s4_def l3)
  show ?thesis
    using run s3(2-6) st by (intro exI [of _ s5]) (simp add: keep(1-3) s2_def)
qed

subsection \<open>The sensor timeout\<close>

text \<open>
  Claim C9. A sensor read timeout is not an error. When the echo pulse measurement
  returns 0, \<open>getDistance\<close> returns the sentinel 999, which is not below \<open>DIST_MAX\<close>; the
  proximity branch of the loop is then not taken and the state, \<open>targetBrightness\<close>
  included, is as it was. A whole iteration of the demo loop whose pulse measurement
  timed out succeeds and ends with the same \<open>targetBrightness\<close>.
\<close>

theorem timeout_is_far:
  "getDistance 0 = 999
   \<and> \<not> getDistance 0 < DIST_MAX
   \<and> demo_loop_sensor (getDistance 0) s = s
   \<and> targetBrightness (demo_loop_sensor (getDistance 0) s) = targetBrightness s
   \<and> (echo_pulse inp = 0 \<and> is_float32 (currentBrightnessPrecise s)
        \<and> 0 \<le> currentBrightnessPrecise s \<and> currentBrightnessPrecise s \<le> 255
      \<longrightarrow> (\<exists>s'. demo_loop inp s = Some s' \<and> targetBrightness s' = targetBrightness s))"
proof -
  have a: "getDistance 0 = 999" by (simp add: getDistance_def)
  have b: "\<not> getDistance 0 < DIST_MAX" by (simp add: a DIST_MAX_def)
  have c: "demo_loop_sensor (getDistance 0) t = t" for t
    using b by (simp add: demo_loop_sensor_def)
  have "\<exists>s'. demo_loop inp s = Some s' \<and> targetBrightness s' = targetBrightness s"
    if "echo_pulse inp = 0" "is_float32 (currentBrightnessPrecise s)"
      "0 \<le> currentBrightnessPrecise s" "currentBrightnessPrecise s \<le> 255"
    using demo_loop_result [OF that(2-4), of inp]
    unfolding that(1) c demo_loop_mode_brightness by blast
  then show ?thesis using a b c by simp
qed

theorem timeout_is_far_witness:
  "echo_pulse \<lparr>millis_loop = 100, millis_setupFade = 100, echo_pulse = 0,
               millis_bright = 100, millis_fade = 100\<rparr> = 0
   \<and> is_float32 (currentBrightnessPrecise dimming_example)
   \<and> 0 \<le> currentBrightnessPrecise dimming_example
   \<and> currentBrightnessPrecise dimming_example \<le> 255
   \<and> (\<exists>s'. demo_loop \<lparr>millis_loop = 100, millis_setupFade = 100, echo_pulse = 0,
                          millis_bright = 100, millis_fade = 100\<rparr> dimming_example = Some s'
         \<and> targetBrightness s' = 8)"
proof -
  have d: "currentBrightnessPrecise dimming_example = 255" "targetBrightness dimming_example = 8"
    by (simp_all add: dimming_example_def demo_init_def)
  show ?thesis
    using timeout_is_far [of dimming_example "\<lparr>millis_loop = 100, millis_setupFade = 100,
      echo_pulse = 0, millis_bright = 100, millis_fade = 100\<rparr>"]
    by (simp add: d is_float32_examples)
qed

subsection \<open>The brightness applied\<close>



end
